theory Spec2Isabelle
  imports Main "HOL-Library.Multiset"
begin

section \<open>Rule rows and the rule codec\<close>

text \<open>
  The adapter stores each policy rule of the engine as one row of a table: an identifier,
  the rule type and eight value columns. The empty string marks an unused column.
\<close>

record CasbinRule =
  ID :: nat
  Ptype :: string
  V0 :: string
  V1 :: string
  V2 :: string
  V3 :: string
  V4 :: string
  V5 :: string
  V6 :: string
  V7 :: string

text \<open>
  A Go call either returns or panics. A panic is not an error value: it unwinds the
  stack, so it is kept apart from the errors a function returns.
\<close>

datatype 'a exec = Panic | Returns 'a

text \<open>\<open>getTableInstance\<close> returns a fresh row, every field at its zero value.\<close>

definition getTableInstance :: CasbinRule where
  "getTableInstance =
     \<lparr>ID = 0, Ptype = [], V0 = [], V1 = [], V2 = [], V3 = [], V4 = [], V5 = [],
      V6 = [], V7 = []\<rparr>"

text \<open>
  \<open>savePolicyLine\<close> (adapter.go) writes the values of a rule into the columns by
  position; values from the ninth on are not read.
\<close>

definition savePolicyLine :: "string \<Rightarrow> string list \<Rightarrow> CasbinRule" where
  "savePolicyLine ptype rule =
     (let line = getTableInstance\<lparr>Ptype := ptype\<rparr>;
          line = (if length rule > 0 then line\<lparr>V0 := rule ! 0\<rparr> else line);
          line = (if length rule > 1 then line\<lparr>V1 := rule ! 1\<rparr> else line);
          line = (if length rule > 2 then line\<lparr>V2 := rule ! 2\<rparr> else line);
          line = (if length rule > 3 then line\<lparr>V3 := rule ! 3\<rparr> else line);
          line = (if length rule > 4 then line\<lparr>V4 := rule ! 4\<rparr> else line);
          line = (if length rule > 5 then line\<lparr>V5 := rule ! 5\<rparr> else line);
          line = (if length rule > 6 then line\<lparr>V6 := rule ! 6\<rparr> else line);
          line = (if length rule > 7 then line\<lparr>V7 := rule ! 7\<rparr> else line)
      in line)"

text \<open>
  The nine strings of a row in column order, as \<open>loadPolicyLine\<close> and \<open>Preview\<close>
  both build them before trimming.
\<close>

definition lineFields :: "CasbinRule \<Rightarrow> string list" where
  "lineFields line =
     [Ptype line, V0 line, V1 line, V2 line, V3 line, V4 line, V5 line, V6 line, V7 line]"

text \<open>
  The trimming loop \<open>for p[index] == "" { index-- }\<close>. The index is a Go \<open>int\<close>;
  reading outside the slice panics. The loop has no lower bound of its own.
\<close>

function trimLoop :: "string list \<Rightarrow> int \<Rightarrow> int exec" where
  "trimLoop p index =
     (if index < 0 \<or> int (length p) \<le> index then Panic
      else if p ! nat index = [] then trimLoop p (index - 1)
      else Returns index)"
  by pat_completeness auto
termination
  by (relation "measure (\<lambda>(p, index). nat (index + 1))") auto

declare trimLoop.simps [simp del]

text \<open>
  The decoding shared by \<open>loadPolicyLine\<close> and \<open>Preview\<close>: start at the last
  column, run the loop, add one, and slice \<open>p[:index]\<close>.
\<close>

definition trimLine :: "CasbinRule \<Rightarrow> string list exec" where
  "trimLine line =
     (let p = lineFields line;
          index = int (length p) - 1
      in case trimLoop p index of
           Panic \<Rightarrow> Panic
         | Returns index \<Rightarrow> Returns (take (nat (index + 1)) p))"

text \<open>
  The policy engine is an external collaborator. Its model holds, for each section
  (\<open>p\<close>, \<open>g\<close>), the assertions by rule type, each with its list of rules; the adapter
  reads these in \<open>savePolicy\<close>. The two engine operations the adapter calls on load,
  \<open>HasPolicyEx\<close> and \<open>LoadPolicyArray\<close>, are taken as parameters.
\<close>

datatype error =
    StoreError nat
  | ErrInvalidTransaction
  | ErrTxDone
  | ErrMissingWhereClause
  | ErrEmptySlice
  | QueryFieldAllEmpty
  | UnsupportedFilterType
  | CtxWithoutDBError
  | ContextError string
  | EngineError string

record Assertion =
  Policy :: "string list list"

type_synonym AssertionMap = "(string \<times> Assertion) list"
type_synonym Model = "(string \<times> AssertionMap) list"

record engine =
  HasPolicyEx :: "Model \<Rightarrow> string \<Rightarrow> string \<Rightarrow> string list \<Rightarrow> error + bool"
  LoadPolicyArray :: "string list \<Rightarrow> Model \<Rightarrow> error option \<times> Model"

text \<open>\<open>loadPolicyLine\<close>: decode the row and hand the tuple to the engine.\<close>

definition loadPolicyLine :: "engine \<Rightarrow> CasbinRule \<Rightarrow> Model \<Rightarrow> (error option \<times> Model) exec" where
  "loadPolicyLine E line model =
     (case trimLine line of
        Panic \<Rightarrow> Panic
      | Returns p \<Rightarrow> Returns (LoadPolicyArray E p model))"

text \<open>
  The spec's \<open>trimTrailingEmpty\<close>: the tuple with its trailing empty strings removed,
  and just the type when every value is empty.
\<close>

definition trimTrailingEmpty :: "string list \<Rightarrow> string list" where
  "trimTrailingEmpty t =
     (case t of [] \<Rightarrow> [] | ty # vs \<Rightarrow> ty # rev (dropWhile (\<lambda>v. v = []) (rev vs)))"

text \<open>What the trimming loop and the slice compute on a row that has a non-empty field.\<close>

definition dropTrailing :: "string list \<Rightarrow> string list" where
  "dropTrailing p = rev (dropWhile (\<lambda>v. v = []) (rev p))"

section \<open>The store\<close>

text \<open>
  The relational store and its driver are external. The model keeps what the adapter can
  observe of them: the committed rows of the target table, the open transactions with
  the writes each has pending, and the sequence of statements sent so far. A statement
  is rejected when the store says so for its position in that sequence, which stands
  for any failure of the underlying connection.
\<close>

datatype column = Cptype | Cv0 | Cv1 | Cv2 | Cv3 | Cv4 | Cv5 | Cv6 | Cv7

fun cell :: "column \<Rightarrow> CasbinRule \<Rightarrow> string" where
  "cell Cptype r = Ptype r"
| "cell Cv0 r = V0 r"
| "cell Cv1 r = V1 r"
| "cell Cv2 r = V2 r"
| "cell Cv3 r = V3 r"
| "cell Cv4 r = V4 r"
| "cell Cv5 r = V5 r"
| "cell Cv6 r = V6 r"
| "cell Cv7 r = V7 r"

fun setCell :: "column \<Rightarrow> string \<Rightarrow> CasbinRule \<Rightarrow> CasbinRule" where
  "setCell Cptype v r = r\<lparr>Ptype := v\<rparr>"
| "setCell Cv0 v r = r\<lparr>V0 := v\<rparr>"
| "setCell Cv1 v r = r\<lparr>V1 := v\<rparr>"
| "setCell Cv2 v r = r\<lparr>V2 := v\<rparr>"
| "setCell Cv3 v r = r\<lparr>V3 := v\<rparr>"
| "setCell Cv4 v r = r\<lparr>V4 := v\<rparr>"
| "setCell Cv5 v r = r\<lparr>V5 := v\<rparr>"
| "setCell Cv6 v r = r\<lparr>V6 := v\<rparr>"
| "setCell Cv7 v r = r\<lparr>V7 := v\<rparr>"

text \<open>
  A condition \<open>(c, v)\<close> is the clause \<open>c = ?\<close> with its argument \<open>v\<close>; a list of them
  is their conjunction. A membership condition \<open>(c, vs)\<close> is \<open>c in (?)\<close>.
\<close>

type_synonym cond = "column \<times> string"
type_synonym incond = "column \<times> string list"

definition matches :: "cond list \<Rightarrow> CasbinRule \<Rightarrow> bool" where
  "matches conds r = list_all (\<lambda>c. cell (fst c) r = snd c) conds"

definition matchesIn :: "incond list \<Rightarrow> CasbinRule \<Rightarrow> bool" where
  "matchesIn conds r = list_all (\<lambda>c. cell (fst c) r \<in> set (snd c)) conds"

datatype sql = DeleteFrom string | TruncateTable string | TruncateRestartIdentity string

datatype wop =
    WInsert "CasbinRule list"
  | WDelete "cond list"
  | WUpdate "cond list" "cond list"
  | WClear

fun apply_wop :: "CasbinRule list \<Rightarrow> wop \<Rightarrow> CasbinRule list" where
  "apply_wop rs (WInsert ls) = rs @ ls"
| "apply_wop rs (WDelete conds) = filter (\<lambda>r. \<not> matches conds r) rs"
| "apply_wop rs (WUpdate conds sets) =
     map (\<lambda>r. if matches conds r then fold (\<lambda>c. setCell (fst c) (snd c)) sets r else r) rs"
| "apply_wop rs WClear = []"

datatype pool = PConn | PTx nat

datatype stmt =
    SBegin nat
  | SCommit nat
  | SRollback nat
  | SSavePoint nat
  | SRollbackTo nat
  | SExec pool sql
  | SCreate pool "CasbinRule list"
  | SDelete pool "cond list"
  | SUpdate pool "cond list" "cond list"
  | SFind pool "cond list" "incond list" bool

record store =
  rows :: "CasbinRule list"
  txs :: "nat \<rightharpoonup> wop list"
  next_tx :: nat
  next_id :: nat
  trace :: "stmt list"
  rejects :: "nat \<Rightarrow> bool"

text \<open>
  A handle is a \<open>*gorm.DB\<close> value as the adapter holds it: the ambient connection, an
  open transaction, the result of a \<open>Begin\<close> the store rejected (error set, no
  transaction behind it), or the result of a \<open>Begin\<close> on a handle that is already a
  transaction (error set, the outer transaction still behind it).
\<close>

datatype handle = Conn | Tx nat | NilTx error | NestedTx nat

definition issue :: "stmt \<Rightarrow> store \<Rightarrow> error option \<times> store" where
  "issue st s =
     ((if rejects s (length (trace s)) then Some (StoreError (length (trace s))) else None),
      s\<lparr>trace := trace s @ [st]\<rparr>)"

definition db_write :: "handle \<Rightarrow> (pool \<Rightarrow> stmt) \<Rightarrow> wop \<Rightarrow> store \<Rightarrow> error option \<times> store" where
  "db_write h st w s =
     (case h of
        NilTx e \<Rightarrow> (Some e, s)
      | NestedTx n \<Rightarrow> (Some ErrInvalidTransaction, s)
      | Conn \<Rightarrow>
          (case issue (st PConn) s of
             (Some e, s') \<Rightarrow> (Some e, s')
           | (None, s') \<Rightarrow> (None, s'\<lparr>rows := apply_wop (rows s') w\<rparr>))
      | Tx n \<Rightarrow>
          (case txs s n of
             None \<Rightarrow> (Some ErrTxDone, s)
           | Some ws \<Rightarrow>
               (case issue (st (PTx n)) s of
                  (Some e, s') \<Rightarrow> (Some e, s')
                | (None, s') \<Rightarrow> (None, s'\<lparr>txs := (txs s')(n \<mapsto> ws @ [w])\<rparr>))))"

text \<open>The rows a statement on a pool sees: the committed rows under its own pending writes.\<close>

definition view :: "pool \<Rightarrow> store \<Rightarrow> CasbinRule list" where
  "view p s =
     (case p of
        PConn \<Rightarrow> rows s
      | PTx n \<Rightarrow> (case txs s n of None \<Rightarrow> rows s | Some ws \<Rightarrow> foldl apply_wop (rows s) ws))"

definition db_Find ::
  "handle \<Rightarrow> cond list \<Rightarrow> incond list \<Rightarrow> bool \<Rightarrow> store \<Rightarrow> (error + CasbinRule list) \<times> store" where
  "db_Find h conds ins ordered s =
     (let run = (\<lambda>p. case issue (SFind p conds ins ordered) s of
                   (Some e, s') \<Rightarrow> (Inl e, s')
                 | (None, s') \<Rightarrow>
                     (let found = filter (\<lambda>r. matches conds r \<and> matchesIn ins r) (view p s')
                      in (Inr (if ordered then sort_key ID found else found), s')))
      in case h of
           NilTx e \<Rightarrow> (Inl e, s)
         | NestedTx n \<Rightarrow> (Inl ErrInvalidTransaction, s)
         | Conn \<Rightarrow> run PConn
         | Tx n \<Rightarrow> (case txs s n of None \<Rightarrow> (Inl ErrTxDone, s) | Some ws \<Rightarrow> run (PTx n)))"

text \<open>
  \<open>Create\<close>: a bulk insert. The adapter always sends rows with identifier zero, and
  the store numbers those from its counter. An empty slice is refused by the driver layer
  before anything is sent.
\<close>

definition number_rows :: "nat \<Rightarrow> CasbinRule list \<Rightarrow> CasbinRule list" where
  "number_rows k ls =
     map (\<lambda>(i, l). if ID l = 0 then l\<lparr>ID := i\<rparr> else l) (zip [k ..< k + length ls] ls)"

definition db_Create :: "handle \<Rightarrow> CasbinRule list \<Rightarrow> store \<Rightarrow> error option \<times> store" where
  "db_Create h ls s =
     (if ls = [] then (Some ErrEmptySlice, s)
      else case db_write h (\<lambda>p. SCreate p ls) (WInsert (number_rows (next_id s) ls)) s of
             (None, s') \<Rightarrow> (None, s'\<lparr>next_id := next_id s' + length ls\<rparr>)
           | (Some e, s') \<Rightarrow> (Some e, s'))"

definition db_Delete :: "handle \<Rightarrow> cond list \<Rightarrow> store \<Rightarrow> error option \<times> store" where
  "db_Delete h conds s =
     (if conds = [] then (Some ErrMissingWhereClause, s)
      else db_write h (\<lambda>p. SDelete p conds) (WDelete conds) s)"

definition db_Updates :: "handle \<Rightarrow> cond list \<Rightarrow> cond list \<Rightarrow> store \<Rightarrow> error option \<times> store" where
  "db_Updates h conds sets s =
     (if conds = [] then (Some ErrMissingWhereClause, s)
      else db_write h (\<lambda>p. SUpdate p conds sets) (WUpdate conds sets) s)"

definition db_Exec :: "handle \<Rightarrow> sql \<Rightarrow> store \<Rightarrow> error option \<times> store" where
  "db_Exec h q s = db_write h (\<lambda>p. SExec p q) WClear s"

definition db_Begin :: "handle \<Rightarrow> store \<Rightarrow> handle \<times> store" where
  "db_Begin h s =
     (case h of
        Conn \<Rightarrow>
          (case issue (SBegin (next_tx s)) s of
             (Some e, s') \<Rightarrow> (NilTx e, s')
           | (None, s') \<Rightarrow>
               (Tx (next_tx s), s'\<lparr>txs := (txs s')(next_tx s \<mapsto> []), next_tx := Suc (next_tx s)\<rparr>))
      | Tx n \<Rightarrow> (NestedTx n, s)
      | NilTx e \<Rightarrow> (NilTx e, s)
      | NestedTx n \<Rightarrow> (NestedTx n, s))"

definition commit_pool :: "nat \<Rightarrow> store \<Rightarrow> error option \<times> store" where
  "commit_pool n s =
     (case txs s n of
        None \<Rightarrow> (Some ErrTxDone, s)
      | Some ws \<Rightarrow>
          (case issue (SCommit n) s of
             (Some e, s') \<Rightarrow> (Some e, s'\<lparr>txs := (txs s')(n := None)\<rparr>)
           | (None, s') \<Rightarrow>
               (None, s'\<lparr>rows := foldl apply_wop (rows s') ws, txs := (txs s')(n := None)\<rparr>)))"

definition db_Commit :: "handle \<Rightarrow> store \<Rightarrow> error option \<times> store" where
  "db_Commit h s =
     (case h of
        Conn \<Rightarrow> (Some ErrInvalidTransaction, s)
      | Tx n \<Rightarrow> commit_pool n s
      | NilTx e \<Rightarrow> (Some e, s)
      | NestedTx n \<Rightarrow> (Some ErrInvalidTransaction, snd (commit_pool n s)))"

definition rollback_pool :: "nat \<Rightarrow> store \<Rightarrow> store" where
  "rollback_pool n s =
     (case txs s n of
        None \<Rightarrow> s
      | Some ws \<Rightarrow> s\<lparr>trace := trace s @ [SRollback n], txs := (txs s)(n := None)\<rparr>)"

text \<open>Every caller in the adapter ignores the result of \<open>Rollback\<close>.\<close>

definition db_Rollback :: "handle \<Rightarrow> store \<Rightarrow> store" where
  "db_Rollback h s =
     (case h of
        Conn \<Rightarrow> s
      | Tx n \<Rightarrow> rollback_pool n s
      | NilTx e \<Rightarrow> s
      | NestedTx n \<Rightarrow> rollback_pool n s)"

text \<open>
  The driver's own \<open>Transaction\<close> helper, which \<open>removePolicies\<close> and
  \<open>updatePolicies\<close> use: on the ambient connection it begins, runs the callback and
  commits, rolling back on an error or a panic; on a handle that is already a
  transaction it brackets the callback with a savepoint instead.
\<close>

definition db_Transaction ::
  "handle \<Rightarrow> (handle \<Rightarrow> store \<Rightarrow> error option exec \<times> store) \<Rightarrow> store \<Rightarrow> error option exec \<times> store" where
  "db_Transaction h fc s =
     (case h of
        Conn \<Rightarrow>
          (case db_Begin Conn s of
             (NilTx e, s1) \<Rightarrow> (Returns (Some e), s1)
           | (tx, s1) \<Rightarrow>
               (case fc tx s1 of
                  (Returns None, s2) \<Rightarrow> (case db_Commit tx s2 of (r, s3) \<Rightarrow> (Returns r, s3))
                | (Returns (Some e), s2) \<Rightarrow> (Returns (Some e), db_Rollback tx s2)
                | (Panic, s2) \<Rightarrow> (Panic, db_Rollback tx s2)))
      | Tx n \<Rightarrow>
          (case txs s n of
             None \<Rightarrow> (Returns (Some ErrTxDone), s)
           | Some ws \<Rightarrow>
               (case issue (SSavePoint n) s of
                  (Some e, s1) \<Rightarrow> (Returns (Some e), s1)
                | (None, s1) \<Rightarrow>
                    (case fc (Tx n) s1 of
                       (Returns None, s2) \<Rightarrow> (Returns None, s2)
                     | (r, s2) \<Rightarrow>
                         (r, (case txs s2 n of
                                None \<Rightarrow> s2
                              | Some ws2 \<Rightarrow>
                                  s2\<lparr>trace := trace s2 @ [SRollbackTo n],
                                     txs := (txs s2)(n \<mapsto> take (length ws) ws2)\<rparr>)))))
      | NilTx e \<Rightarrow> (Returns (Some e), s)
      | NestedTx n \<Rightarrow> (Returns (Some ErrInvalidTransaction), s))"

section \<open>The adapter\<close>

text \<open>
  Of the adapter's fields the operations below read the table prefix and name, the name
  of the dialect of its connection (\<open>a.db.Config.Name()\<close>), its own handle, and the
  filtered flag.
\<close>

record Adapter =
  tablePrefix :: string
  tableName :: string
  dialect :: string
  db :: handle
  isFiltered :: bool

definition getFullTableName :: "'a Adapter_scheme \<Rightarrow> string" where
  "getFullTableName a =
     (if tablePrefix a \<noteq> [] then tablePrefix a @ ''_'' @ tableName a else tableName a)"

text \<open>
  \<open>truncateTable\<close> picks the statement by dialect and runs it on the handle it is
  given.
\<close>

definition truncateTable :: "'a Adapter_scheme \<Rightarrow> handle \<Rightarrow> store \<Rightarrow> error option \<times> store" where
  "truncateTable a h s =
     (let q = (if dialect a = ''sqlite'' then DeleteFrom (getFullTableName a)
               else if dialect a = ''sqlite3'' then DeleteFrom (getFullTableName a)
               else if dialect a = ''postgres'' then TruncateRestartIdentity (getFullTableName a)
               else if dialect a = ''sqlserver'' then TruncateTable (getFullTableName a)
               else if dialect a = ''mysql'' then TruncateTable (getFullTableName a)
               else TruncateTable (getFullTableName a))
      in db_Exec h q s)"

text \<open>
  The equality predicate that \<open>rawDelete\<close>, \<open>appendWhere\<close> and \<open>queryString\<close> each
  build: the type always, and every value column that is not empty.
\<close>

definition queryString :: "CasbinRule \<Rightarrow> cond list" where
  "queryString c =
     (let q = [(Cptype, Ptype c)];
          q = (if V0 c \<noteq> [] then q @ [(Cv0, V0 c)] else q);
          q = (if V1 c \<noteq> [] then q @ [(Cv1, V1 c)] else q);
          q = (if V2 c \<noteq> [] then q @ [(Cv2, V2 c)] else q);
          q = (if V3 c \<noteq> [] then q @ [(Cv3, V3 c)] else q);
          q = (if V4 c \<noteq> [] then q @ [(Cv4, V4 c)] else q);
          q = (if V5 c \<noteq> [] then q @ [(Cv5, V5 c)] else q);
          q = (if V6 c \<noteq> [] then q @ [(Cv6, V6 c)] else q);
          q = (if V7 c \<noteq> [] then q @ [(Cv7, V7 c)] else q)
      in q)"

definition rawDelete :: "handle \<Rightarrow> CasbinRule \<Rightarrow> store \<Rightarrow> error option \<times> store" where
  "rawDelete h line s = db_Delete h (queryString line) s"

text \<open>\<open>toStringPolicy\<close> lists the non-empty fields of a row.\<close>

definition toStringPolicy :: "CasbinRule \<Rightarrow> string list" where
  "toStringPolicy c = filter (\<lambda>v. v \<noteq> []) (lineFields c)"

fun checkQueryField :: "string list \<Rightarrow> error option" where
  "checkQueryField [] = Some QueryFieldAllEmpty"
| "checkQueryField (fieldValue # fieldValues) =
     (if fieldValue \<noteq> [] then None else checkQueryField fieldValues)"

text \<open>
  The eight guarded assignments that lay a window of values over the columns from
  \<open>fieldIndex\<close> on, as \<open>removeFilteredPolicy\<close> and \<open>updateFilteredPolicies\<close> both
  write them. The guard keeps every read inside \<open>fieldValues\<close>.
\<close>

definition windowCell :: "int \<Rightarrow> string list \<Rightarrow> int \<Rightarrow> column \<Rightarrow> CasbinRule \<Rightarrow> CasbinRule" where
  "windowCell fieldIndex fieldValues k c line =
     (if fieldIndex \<le> k \<and> k < fieldIndex + int (length fieldValues)
      then setCell c (fieldValues ! nat (k - fieldIndex)) line else line)"

definition windowLine :: "string \<Rightarrow> int \<Rightarrow> string list \<Rightarrow> CasbinRule" where
  "windowLine ptype fieldIndex fieldValues =
     (let line = getTableInstance\<lparr>Ptype := ptype\<rparr>;
          line = windowCell fieldIndex fieldValues 0 Cv0 line;
          line = windowCell fieldIndex fieldValues 1 Cv1 line;
          line = windowCell fieldIndex fieldValues 2 Cv2 line;
          line = windowCell fieldIndex fieldValues 3 Cv3 line;
          line = windowCell fieldIndex fieldValues 4 Cv4 line;
          line = windowCell fieldIndex fieldValues 5 Cv5 line;
          line = windowCell fieldIndex fieldValues 6 Cv6 line;
          line = windowCell fieldIndex fieldValues 7 Cv7 line
      in line)"

subsection \<open>Loading\<close>

text \<open>
  \<open>Preview\<close> walks the rows by index. A row the model already has is swapped to the
  front, position \<open>j\<close>, and \<open>j\<close> advances; at the end the first \<open>j\<close> rows are cut
  off. The loop returns the rows as they stand and \<open>j\<close>.
\<close>

function PreviewLoop ::
  "engine \<Rightarrow> Model \<Rightarrow> CasbinRule list \<Rightarrow> nat \<Rightarrow> nat \<Rightarrow> (error option \<times> CasbinRule list \<times> nat) exec" where
  "PreviewLoop E model rules i j =
     (if length rules \<le> i then Returns (None, rules, j)
      else
        (let rule = rules ! i in
         case trimLine rule of
           Panic \<Rightarrow> Panic
         | Returns p \<Rightarrow>
             (case p of
                [] \<Rightarrow> Panic
              | key # vals \<Rightarrow>
                  if length key < 1 then Panic
                  else
                    (let sec = take 1 key in
                     case HasPolicyEx E model sec key vals of
                       Inl err \<Rightarrow> Returns (Some err, rules, j)
                     | Inr ok \<Rightarrow>
                         if ok then
                           (if length rules \<le> j then Panic
                            else PreviewLoop E model (rules[j := rule, i := rules ! j]) (i + 1) (j + 1))
                         else PreviewLoop E model rules (i + 1) j))))"
  by pat_completeness auto
termination
  by (relation "measure (\<lambda>(E, model, rules, i, j). length rules - i)") auto

declare PreviewLoop.simps [simp del]

definition Preview :: "engine \<Rightarrow> CasbinRule list \<Rightarrow> Model \<Rightarrow> (error option \<times> CasbinRule list) exec" where
  "Preview E rules model =
     (case PreviewLoop E model rules 0 0 of
        Panic \<Rightarrow> Panic
      | Returns (Some err, rules', j) \<Rightarrow> Returns (Some err, rules')
      | Returns (None, rules', j) \<Rightarrow> Returns (None, drop j rules'))"


text \<open>The loop of \<open>loadPolicy\<close> over the rows that \<open>Preview\<close> kept.\<close>

fun loadLines :: "engine \<Rightarrow> CasbinRule list \<Rightarrow> Model \<Rightarrow> (error option \<times> Model) exec" where
  "loadLines E [] model = Returns (None, model)"
| "loadLines E (line # lines) model =
     (case loadPolicyLine E line model of
        Panic \<Rightarrow> Panic
      | Returns (Some err, model') \<Rightarrow> Returns (Some err, model')
      | Returns (None, model') \<Rightarrow> loadLines E lines model')"

definition loadPolicy ::
  "engine \<Rightarrow> 'a Adapter_scheme \<Rightarrow> handle \<Rightarrow> Model \<Rightarrow> store \<Rightarrow> (error option \<times> Model) exec \<times> store" where
  "loadPolicy E a h model s =
     (case db_Find h [] [] True s of
        (Inl err, s') \<Rightarrow> (Returns (Some err, model), s')
      | (Inr lines, s') \<Rightarrow>
          (case Preview E lines model of
             Panic \<Rightarrow> (Panic, s')
           | Returns (Some err, lines') \<Rightarrow> (Returns (Some err, model), s')
           | Returns (None, lines') \<Rightarrow> (loadLines E lines' model, s')))"

record Filter =
  fPtype :: "string list"
  fV0 :: "string list"
  fV1 :: "string list"
  fV2 :: "string list"
  fV3 :: "string list"
  fV4 :: "string list"
  fV5 :: "string list"
  fV6 :: "string list"
  fV7 :: "string list"

record BatchFilter =
  filters :: "Filter list"

text \<open>The dynamic type of the \<open>filter\<close> argument, as the type switch tells them apart.\<close>

datatype filter_arg =
    FilterValue Filter
  | FilterPointer Filter
  | FilterSlice "Filter list"
  | BatchFilterValue BatchFilter
  | BatchFilterPointer BatchFilter
  | OtherType

definition filterQuery :: "Filter \<Rightarrow> incond list" where
  "filterQuery f =
     (let q = [];
          q = (if length (fPtype f) > 0 then q @ [(Cptype, fPtype f)] else q);
          q = (if length (fV0 f) > 0 then q @ [(Cv0, fV0 f)] else q);
          q = (if length (fV1 f) > 0 then q @ [(Cv1, fV1 f)] else q);
          q = (if length (fV2 f) > 0 then q @ [(Cv2, fV2 f)] else q);
          q = (if length (fV3 f) > 0 then q @ [(Cv3, fV3 f)] else q);
          q = (if length (fV4 f) > 0 then q @ [(Cv4, fV4 f)] else q);
          q = (if length (fV5 f) > 0 then q @ [(Cv5, fV5 f)] else q);
          q = (if length (fV6 f) > 0 then q @ [(Cv6, fV6 f)] else q);
          q = (if length (fV7 f) > 0 then q @ [(Cv7, fV7 f)] else q)
      in q)"

fun loadFilters ::
  "engine \<Rightarrow> handle \<Rightarrow> Filter list \<Rightarrow> Model \<Rightarrow> store \<Rightarrow> (error option \<times> Model) exec \<times> store" where
  "loadFilters E h [] model s = (Returns (None, model), s)"
| "loadFilters E h (f # fs) model s =
     (case db_Find h [] (filterQuery f) True s of
        (Inl err, s') \<Rightarrow> (Returns (Some err, model), s')
      | (Inr lines, s') \<Rightarrow>
          (case loadLines E lines model of
             Panic \<Rightarrow> (Panic, s')
           | Returns (Some err, model') \<Rightarrow> (Returns (Some err, model'), s')
           | Returns (None, model') \<Rightarrow> loadFilters E h fs model' s'))"

text \<open>\<open>loadFilteredPolicy\<close> sets the filtered flag of the adapter once every filter has loaded.\<close>

definition loadFilteredPolicy ::
  "engine \<Rightarrow> 'a Adapter_scheme \<Rightarrow> handle \<Rightarrow> Model \<Rightarrow> filter_arg \<Rightarrow> store \<Rightarrow>
     ((error option \<times> Model) exec \<times> 'a Adapter_scheme) \<times> store" where
  "loadFilteredPolicy E a h model filter_v s =
     (let batch = (case filter_v of
                     FilterValue f \<Rightarrow> Some [f]
                   | FilterPointer f \<Rightarrow> Some [f]
                   | FilterSlice fs \<Rightarrow> Some fs
                   | BatchFilterValue b \<Rightarrow> Some (filters b)
                   | BatchFilterPointer b \<Rightarrow> Some (filters b)
                   | OtherType \<Rightarrow> None)
      in case batch of
           None \<Rightarrow> ((Returns (Some UnsupportedFilterType, model), a), s)
         | Some fs \<Rightarrow>
             (case loadFilters E h fs model s of
                (Returns (None, model'), s') \<Rightarrow> ((Returns (None, model'), a\<lparr>isFiltered := True\<rparr>), s')
              | (r, s') \<Rightarrow> ((r, a), s')))"

subsection \<open>Saving\<close>

definition flushEvery :: nat where
  "flushEvery = 1000"

text \<open>
  A Go map is walked in an order the runtime picks; an assertion map is given here as the
  list of its entries in the order of the walk.
\<close>

definition modelSection :: "Model \<Rightarrow> string \<Rightarrow> AssertionMap" where
  "modelSection model sec = (case map_of model sec of None \<Rightarrow> [] | Some am \<Rightarrow> am)"

text \<open>
  The inner loop of \<open>savePolicy\<close> over the rules of one assertion: append the row,
  and once the buffer is longer than \<open>flushEvery\<close> insert it and start a new one.
\<close>

fun savePolicyRules ::
  "handle \<Rightarrow> string \<Rightarrow> string list list \<Rightarrow> CasbinRule list \<Rightarrow> store \<Rightarrow>
     (error + CasbinRule list) \<times> store" where
  "savePolicyRules tx ptype [] lines s = (Inr lines, s)"
| "savePolicyRules tx ptype (rule # rules) lines s =
     (let lines = lines @ [savePolicyLine ptype rule] in
      if length lines > flushEvery then
        (case db_Create tx lines s of
           (Some err, s') \<Rightarrow> (Inl err, db_Rollback tx s')
         | (None, s') \<Rightarrow> savePolicyRules tx ptype rules [] s')
      else savePolicyRules tx ptype rules lines s)"

fun savePolicySection ::
  "handle \<Rightarrow> AssertionMap \<Rightarrow> CasbinRule list \<Rightarrow> store \<Rightarrow> (error + CasbinRule list) \<times> store" where
  "savePolicySection tx [] lines s = (Inr lines, s)"
| "savePolicySection tx (entry # entries) lines s =
     (case savePolicyRules tx (fst entry) (Policy (snd entry)) lines s of
        (Inl err, s') \<Rightarrow> (Inl err, s')
      | (Inr lines', s') \<Rightarrow> savePolicySection tx entries lines' s')"

text \<open>
  \<open>savePolicy\<close>: begin a transaction \<open>tx\<close> on the handle \<open>h\<close>, truncate through
  \<open>h\<close>, insert through \<open>tx\<close>, commit \<open>tx\<close>.
\<close>

definition savePolicy :: "'a Adapter_scheme \<Rightarrow> handle \<Rightarrow> Model \<Rightarrow> store \<Rightarrow> error option \<times> store" where
  "savePolicy a h model s =
     (case db_Begin h s of
        (tx, s1) \<Rightarrow>
          (case truncateTable a h s1 of
             (Some err, s2) \<Rightarrow> (Some err, db_Rollback tx s2)
           | (None, s2) \<Rightarrow>
               (case savePolicySection tx (modelSection model ''p'') [] s2 of
                  (Inl err, s3) \<Rightarrow> (Some err, s3)
                | (Inr lines, s3) \<Rightarrow>
                    (case savePolicySection tx (modelSection model ''g'') lines s3 of
                       (Inl err, s4) \<Rightarrow> (Some err, s4)
                     | (Inr lines, s4) \<Rightarrow>
                         if length lines > 0 then
                           (case db_Create tx lines s4 of
                              (Some err, s5) \<Rightarrow> (Some err, db_Rollback tx s5)
                            | (None, s5) \<Rightarrow> db_Commit tx s5)
                         else db_Commit tx s4))))"

subsection \<open>Adding, removing and updating\<close>

definition addPolicy :: "handle \<Rightarrow> string \<Rightarrow> string \<Rightarrow> string list \<Rightarrow> store \<Rightarrow> error option \<times> store" where
  "addPolicy h sec ptype rule s = db_Create h [savePolicyLine ptype rule] s"

definition addPolicies ::
  "handle \<Rightarrow> string \<Rightarrow> string \<Rightarrow> string list list \<Rightarrow> store \<Rightarrow> error option \<times> store" where
  "addPolicies h sec ptype rules s = db_Create h (map (savePolicyLine ptype) rules) s"

definition removePolicy :: "handle \<Rightarrow> string \<Rightarrow> string \<Rightarrow> string list \<Rightarrow> store \<Rightarrow> error option \<times> store" where
  "removePolicy h sec ptype rule s = rawDelete h (savePolicyLine ptype rule) s"

text \<open>
  The callback of \<open>removePolicies\<close>: one \<open>rawDelete\<close> per rule; the branch taken on
  an error is empty, and the callback returns \<open>nil\<close>.
\<close>

fun removePoliciesLoop :: "handle \<Rightarrow> string \<Rightarrow> string list list \<Rightarrow> store \<Rightarrow> error option exec \<times> store" where
  "removePoliciesLoop tx ptype [] s = (Returns None, s)"
| "removePoliciesLoop tx ptype (rule # rules) s =
     (case rawDelete tx (savePolicyLine ptype rule) s of
        (Some err, s') \<Rightarrow> removePoliciesLoop tx ptype rules s'
      | (None, s') \<Rightarrow> removePoliciesLoop tx ptype rules s')"

definition removePolicies ::
  "handle \<Rightarrow> string \<Rightarrow> string \<Rightarrow> string list list \<Rightarrow> store \<Rightarrow> error option exec \<times> store" where
  "removePolicies h sec ptype rules s =
     db_Transaction h (\<lambda>tx. removePoliciesLoop tx ptype rules) s"

definition removeFilteredPolicy ::
  "handle \<Rightarrow> string \<Rightarrow> string \<Rightarrow> int \<Rightarrow> string list \<Rightarrow> store \<Rightarrow> error option \<times> store" where
  "removeFilteredPolicy h sec ptype fieldIndex fieldValues s =
     (if fieldIndex = - 1 then rawDelete h (getTableInstance\<lparr>Ptype := ptype\<rparr>) s
      else case checkQueryField fieldValues of
             Some err \<Rightarrow> (Some err, s)
           | None \<Rightarrow> rawDelete h (windowLine ptype fieldIndex fieldValues) s)"

text \<open>
  A struct given to \<open>Where\<close> or \<open>Updates\<close> contributes its non-zero fields only; the
  identifier of a row built by \<open>savePolicyLine\<close> is zero.
\<close>

definition structFields :: "CasbinRule \<Rightarrow> cond list" where
  "structFields line =
     filter (\<lambda>c. snd c \<noteq> [])
       (map (\<lambda>c. (c, cell c line)) [Cptype, Cv0, Cv1, Cv2, Cv3, Cv4, Cv5, Cv6, Cv7])"

definition updatePolicy ::
  "handle \<Rightarrow> string \<Rightarrow> string \<Rightarrow> string list \<Rightarrow> string list \<Rightarrow> store \<Rightarrow> error option \<times> store" where
  "updatePolicy h sec ptype oldRule newPolicy s =
     (let oldLine = savePolicyLine ptype oldRule;
          newLine = savePolicyLine ptype newPolicy
      in db_Updates h (structFields oldLine) (structFields newLine) s)"

text \<open>
  The callback of \<open>updatePolicies\<close> walks the old rows by index and reads the new row
  at the same index, which panics when the new rows have run out.
\<close>

fun updatePoliciesLoop ::
  "handle \<Rightarrow> CasbinRule list \<Rightarrow> CasbinRule list \<Rightarrow> store \<Rightarrow> error option exec \<times> store" where
  "updatePoliciesLoop tx [] newPolicies s = (Returns None, s)"
| "updatePoliciesLoop tx (oldLine # oldPolicies) [] s = (Panic, s)"
| "updatePoliciesLoop tx (oldLine # oldPolicies) (newLine # newPolicies) s =
     (case db_Updates tx (structFields oldLine) (structFields newLine) s of
        (Some err, s') \<Rightarrow> (Returns (Some err), s')
      | (None, s') \<Rightarrow> updatePoliciesLoop tx oldPolicies newPolicies s')"

definition updatePolicies ::
  "handle \<Rightarrow> string \<Rightarrow> string \<Rightarrow> string list list \<Rightarrow> string list list \<Rightarrow> store \<Rightarrow>
     error option exec \<times> store" where
  "updatePolicies h sec ptype oldRules newRules s =
     (let oldPolicies = map (savePolicyLine ptype) oldRules;
          newPolicies = map (savePolicyLine ptype) newRules
      in db_Transaction h (\<lambda>tx. updatePoliciesLoop tx oldPolicies newPolicies) s)"

fun createEach :: "handle \<Rightarrow> CasbinRule list \<Rightarrow> store \<Rightarrow> error option \<times> store" where
  "createEach tx [] s = (None, s)"
| "createEach tx (line # lines) s =
     (case db_Create tx [line] s of
        (Some err, s') \<Rightarrow> (Some err, db_Rollback tx s')
      | (None, s') \<Rightarrow> createEach tx lines s')"

text \<open>
  \<open>updateFilteredPolicies\<close>: build the window row, then in a transaction fetch the
  matching rows, delete them, insert the new rows one by one, and return the fetched
  rows with the result of the commit.
\<close>

definition updateFilteredPolicies ::
  "handle \<Rightarrow> string \<Rightarrow> string \<Rightarrow> string list list \<Rightarrow> int \<Rightarrow> string list \<Rightarrow> store \<Rightarrow>
     (string list list \<times> error option) \<times> store" where
  "updateFilteredPolicies h sec ptype newPolicies fieldIndex fieldValues s =
     (let line = windowLine ptype fieldIndex fieldValues;
          newP = map (savePolicyLine ptype) newPolicies
      in case db_Begin h s of
           (tx, s1) \<Rightarrow>
             (case db_Find tx (queryString line) [] False s1 of
                (Inl err, s2) \<Rightarrow> (([], Some err), db_Rollback tx s2)
              | (Inr oldP, s2) \<Rightarrow>
                  (case db_Delete tx (queryString line) s2 of
                     (Some err, s3) \<Rightarrow> (([], Some err), db_Rollback tx s3)
                   | (None, s3) \<Rightarrow>
                       (case createEach tx newP s3 of
                          (Some err, s4) \<Rightarrow> (([], Some err), s4)
                        | (None, s4) \<Rightarrow>
                            (case db_Commit tx s4 of
                               (r, s5) \<Rightarrow> ((map toStringPolicy oldP, r), s5))))))"

subsection \<open>The transaction wrapper\<close>

text \<open>
  \<open>Transaction\<close> runs a callback against a copy of the adapter bound to a fresh
  transaction. The callback acts on the store and returns an error or \<open>nil\<close>, or panics.
  The enforcer's \<open>LoadPolicy\<close> is external; it is a parameter that acts on the store
  and may fail. The outcome records what the caller receives, how often the reload hook
  ran, and what was written to the log.

  The function's result is unnamed, so \<open>return err\<close> fixes the value handed to the
  caller before the deferred function runs; the deferred function assigns the reload's
  result to the local variable only.
\<close>

record outcome =
  returned :: "error option exec"
  reloads :: nat
  logged :: "error list"

definition handleError :: "handle \<Rightarrow> error option" where
  "handleError h =
     (case h of
        Conn \<Rightarrow> None
      | Tx n \<Rightarrow> None
      | NilTx e \<Rightarrow> Some e
      | NestedTx n \<Rightarrow> Some ErrInvalidTransaction)"

definition rollbackAndReload ::
  "error option exec \<Rightarrow> handle \<Rightarrow> (store \<Rightarrow> error option \<times> store) \<Rightarrow> store \<Rightarrow> outcome \<times> store" where
  "rollbackAndReload ret tx LoadPolicy s =
     (case LoadPolicy (db_Rollback tx s) of
        (Some err, s') \<Rightarrow> (\<lparr>returned = ret, reloads = 1, logged = [err]\<rparr>, s')
      | (None, s') \<Rightarrow> (\<lparr>returned = ret, reloads = 1, logged = []\<rparr>, s'))"

definition Transaction ::
  "Adapter \<Rightarrow> (store \<Rightarrow> error option \<times> store) \<Rightarrow> (Adapter \<Rightarrow> store \<Rightarrow> error option exec \<times> store) \<Rightarrow>
     store \<Rightarrow> outcome \<times> store" where
  "Transaction a LoadPolicy fc s =
     (case db_Begin (db a) s of
        (tx, s1) \<Rightarrow>
          (case handleError tx of
             Some err \<Rightarrow> (\<lparr>returned = Returns (Some err), reloads = 0, logged = []\<rparr>, s1)
           | None \<Rightarrow>
               (let b = \<lparr>tablePrefix = [], tableName = tableName a, dialect = dialect a,
                         db = tx, isFiltered = False\<rparr>
                in case fc b s1 of
                     (Panic, s2) \<Rightarrow> rollbackAndReload Panic tx LoadPolicy s2
                   | (Returns (Some err), s2) \<Rightarrow>
                       rollbackAndReload (Returns (Some err)) tx LoadPolicy s2
                   | (Returns None, s2) \<Rightarrow>
                       (case db_Commit tx s2 of
                          (Some err, s3) \<Rightarrow> rollbackAndReload (Returns (Some err)) tx LoadPolicy s3
                        | (None, s3) \<Rightarrow>
                            (\<lparr>returned = Returns None, reloads = 0, logged = []\<rparr>, s3)))))"

section \<open>The context-scoped adapter\<close>

text \<open>
  A context carries values by key and, once it is cancelled or past its deadline, an
  error. The context adapter looks its handle up under its own key; a value of another
  type under that key does not count.
\<close>

datatype ctx_value = DBValue handle | OtherValue

record Context =
  ctx_values :: "string \<rightharpoonup> ctx_value"
  ctx_err :: "error option"

record ContextAdapter = Adapter +
  gormCtxKey :: string

definition getDBByCtx :: "ContextAdapter \<Rightarrow> Context \<Rightarrow> handle option" where
  "getDBByCtx ca ctx =
     (case ctx_values ctx (gormCtxKey ca) of
        Some (DBValue h) \<Rightarrow> Some h
      | Some OtherValue \<Rightarrow> None
      | None \<Rightarrow> None)"

text \<open>
  \<open>executeWithContext\<close> starts the operation on its own goroutine and waits for
  either its result or the context's end. The operation is not stopped when the context
  ends first: it runs to completion, so its effect on the state is the same either way.
  Which of the two the \<open>select\<close> takes when the context has ended is not determined by
  the program; the choice is the parameter \<open>ctx_first\<close>. A panic on the goroutine
  ends the program.
\<close>

definition executeWithContext ::
  "Context \<Rightarrow> bool \<Rightarrow> ('s \<Rightarrow> error option exec \<times> 's) \<Rightarrow> 's \<Rightarrow> error option exec \<times> 's" where
  "executeWithContext ctx ctx_first fn s =
     (case fn s of
        (Panic, s') \<Rightarrow> (Panic, s')
      | (Returns err, s') \<Rightarrow>
          (case ctx_err ctx of
             Some cerr \<Rightarrow> (if ctx_first then (Returns (Some cerr), s') else (Returns err, s'))
           | None \<Rightarrow> (Returns err, s')))"

text \<open>
  \<open>executeWithContextEx\<close> passes rules and error through a slice of interface values
  and asserts the second to be an error, which panics when the error is \<open>nil\<close>.
\<close>

definition executeWithContextEx ::
  "Context \<Rightarrow> bool \<Rightarrow> ('s \<Rightarrow> (string list list \<times> error option) exec \<times> 's) \<Rightarrow> 's \<Rightarrow>
     (string list list \<times> error option) exec \<times> 's" where
  "executeWithContextEx ctx ctx_first fn s =
     (case fn s of
        (Panic, s') \<Rightarrow> (Panic, s')
      | (Returns (rules, err), s') \<Rightarrow>
          (let received = (case err of None \<Rightarrow> Panic | Some e \<Rightarrow> Returns (rules, Some e)) in
           case ctx_err ctx of
             Some cerr \<Rightarrow> (if ctx_first then (Returns ([], Some cerr), s') else (received, s'))
           | None \<Rightarrow> (received, s')))"

text \<open>
  What a raced operation hands back when its function returns \<open>CtxWithoutDBError\<close>:
  that error, unless the context has ended and the \<open>select\<close> takes that case.
\<close>

definition withoutDB :: "Context \<Rightarrow> bool \<Rightarrow> error option" where
  "withoutDB ctx ctx_first =
     (case ctx_err ctx of
        Some cerr \<Rightarrow> (if ctx_first then Some cerr else Some CtxWithoutDBError)
      | None \<Rightarrow> Some CtxWithoutDBError)"

definition returning :: "error option \<times> 's \<Rightarrow> error option exec \<times> 's" where
  "returning r = (Returns (fst r), snd r)"

definition LoadPolicyCtx ::
  "engine \<Rightarrow> ContextAdapter \<Rightarrow> Context \<Rightarrow> bool \<Rightarrow> Model \<times> store \<Rightarrow> error option exec \<times> Model \<times> store" where
  "LoadPolicyCtx E ca ctx ctx_first =
     executeWithContext ctx ctx_first
       (\<lambda>(model, s). case getDBByCtx ca ctx of
           None \<Rightarrow> (Returns (Some CtxWithoutDBError), model, s)
         | Some h \<Rightarrow>
             (case loadPolicy E ca h model s of
                (Panic, s') \<Rightarrow> (Panic, model, s')
              | (Returns (err, model'), s') \<Rightarrow> (Returns err, model', s')))"

definition LoadFilteredPolicyCtx ::
  "engine \<Rightarrow> Context \<Rightarrow> bool \<Rightarrow> filter_arg \<Rightarrow> ContextAdapter \<times> Model \<times> store \<Rightarrow>
     error option exec \<times> ContextAdapter \<times> Model \<times> store" where
  "LoadFilteredPolicyCtx E ctx ctx_first filter_v =
     executeWithContext ctx ctx_first
       (\<lambda>(ca, model, s). case getDBByCtx ca ctx of
           None \<Rightarrow> (Returns (Some CtxWithoutDBError), ca, model, s)
         | Some h \<Rightarrow>
             (case loadFilteredPolicy E ca h model filter_v s of
                ((Panic, ca'), s') \<Rightarrow> (Panic, ca', model, s')
              | ((Returns (err, model'), ca'), s') \<Rightarrow> (Returns err, ca', model', s')))"

definition SavePolicyCtx ::
  "ContextAdapter \<Rightarrow> Context \<Rightarrow> bool \<Rightarrow> Model \<Rightarrow> store \<Rightarrow> error option exec \<times> store" where
  "SavePolicyCtx ca ctx ctx_first model =
     executeWithContext ctx ctx_first
       (\<lambda>s. case getDBByCtx ca ctx of
           None \<Rightarrow> (Returns (Some CtxWithoutDBError), s)
         | Some h \<Rightarrow> returning (savePolicy ca h model s))"

definition AddPolicyCtx ::
  "ContextAdapter \<Rightarrow> Context \<Rightarrow> bool \<Rightarrow> string \<Rightarrow> string \<Rightarrow> string list \<Rightarrow> store \<Rightarrow>
     error option exec \<times> store" where
  "AddPolicyCtx ca ctx ctx_first sec ptype rule =
     executeWithContext ctx ctx_first
       (\<lambda>s. case getDBByCtx ca ctx of
           None \<Rightarrow> (Returns (Some CtxWithoutDBError), s)
         | Some h \<Rightarrow> returning (addPolicy h sec ptype rule s))"

definition AddPoliciesCtx ::
  "ContextAdapter \<Rightarrow> Context \<Rightarrow> bool \<Rightarrow> string \<Rightarrow> string \<Rightarrow> string list list \<Rightarrow> store \<Rightarrow>
     error option exec \<times> store" where
  "AddPoliciesCtx ca ctx ctx_first sec ptype rules =
     executeWithContext ctx ctx_first
       (\<lambda>s. case getDBByCtx ca ctx of
           None \<Rightarrow> (Returns (Some CtxWithoutDBError), s)
         | Some h \<Rightarrow> returning (addPolicies h sec ptype rules s))"

definition RemovePolicyCtx ::
  "ContextAdapter \<Rightarrow> Context \<Rightarrow> bool \<Rightarrow> string \<Rightarrow> string \<Rightarrow> string list \<Rightarrow> store \<Rightarrow>
     error option exec \<times> store" where
  "RemovePolicyCtx ca ctx ctx_first sec ptype rule =
     executeWithContext ctx ctx_first
       (\<lambda>s. case getDBByCtx ca ctx of
           None \<Rightarrow> (Returns (Some CtxWithoutDBError), s)
         | Some h \<Rightarrow> returning (removePolicy h sec ptype rule s))"

definition RemovePoliciesCtx ::
  "ContextAdapter \<Rightarrow> Context \<Rightarrow> bool \<Rightarrow> string \<Rightarrow> string \<Rightarrow> string list list \<Rightarrow> store \<Rightarrow>
     error option exec \<times> store" where
  "RemovePoliciesCtx ca ctx ctx_first sec ptype rules =
     executeWithContext ctx ctx_first
       (\<lambda>s. case getDBByCtx ca ctx of
           None \<Rightarrow> (Returns (Some CtxWithoutDBError), s)
         | Some h \<Rightarrow> removePolicies h sec ptype rules s)"

definition RemoveFilteredPolicyCtx ::
  "ContextAdapter \<Rightarrow> Context \<Rightarrow> bool \<Rightarrow> string \<Rightarrow> string \<Rightarrow> int \<Rightarrow> string list \<Rightarrow> store \<Rightarrow>
     error option exec \<times> store" where
  "RemoveFilteredPolicyCtx ca ctx ctx_first sec ptype fieldIndex fieldValues =
     executeWithContext ctx ctx_first
       (\<lambda>s. case getDBByCtx ca ctx of
           None \<Rightarrow> (Returns (Some CtxWithoutDBError), s)
         | Some h \<Rightarrow> returning (removeFilteredPolicy h sec ptype fieldIndex fieldValues s))"

definition UpdatePolicyCtx ::
  "ContextAdapter \<Rightarrow> Context \<Rightarrow> bool \<Rightarrow> string \<Rightarrow> string \<Rightarrow> string list \<Rightarrow> string list \<Rightarrow> store \<Rightarrow>
     error option exec \<times> store" where
  "UpdatePolicyCtx ca ctx ctx_first sec ptype oldRule newRule =
     executeWithContext ctx ctx_first
       (\<lambda>s. case getDBByCtx ca ctx of
           None \<Rightarrow> (Returns (Some CtxWithoutDBError), s)
         | Some h \<Rightarrow> returning (updatePolicy h sec ptype oldRule newRule s))"

definition UpdatePoliciesCtx ::
  "ContextAdapter \<Rightarrow> Context \<Rightarrow> bool \<Rightarrow> string \<Rightarrow> string \<Rightarrow> string list list \<Rightarrow> string list list \<Rightarrow>
     store \<Rightarrow> error option exec \<times> store" where
  "UpdatePoliciesCtx ca ctx ctx_first sec ptype oldRules newRules =
     executeWithContext ctx ctx_first
       (\<lambda>s. case getDBByCtx ca ctx of
           None \<Rightarrow> (Returns (Some CtxWithoutDBError), s)
         | Some h \<Rightarrow> updatePolicies h sec ptype oldRules newRules s)"

definition UpdateFilteredPoliciesCtx ::
  "ContextAdapter \<Rightarrow> Context \<Rightarrow> bool \<Rightarrow> string \<Rightarrow> string \<Rightarrow> string list list \<Rightarrow> int \<Rightarrow> string list \<Rightarrow>
     store \<Rightarrow> (string list list \<times> error option) exec \<times> store" where
  "UpdateFilteredPoliciesCtx ca ctx ctx_first sec ptype newRules fieldIndex fieldValues =
     executeWithContextEx ctx ctx_first
       (\<lambda>s. case getDBByCtx ca ctx of
           None \<Rightarrow> (Returns ([], Some CtxWithoutDBError), s)
         | Some h \<Rightarrow>
             (case updateFilteredPolicies h sec ptype newRules fieldIndex fieldValues s of
                (r, s') \<Rightarrow> (Returns r, s')))"

text \<open>
  \<open>TransactionCtx\<close> is not raced against the context. Its callback receives the
  context with the transaction stored under the adapter's key. After the callback
  succeeds it commits and returns the transaction's error, leaving the local \<open>err\<close> as
  it was, so the deferred function does nothing then.
\<close>

definition TransactionCtx ::
  "ContextAdapter \<Rightarrow> Context \<Rightarrow> (store \<Rightarrow> error option \<times> store) \<Rightarrow>
     (Context \<Rightarrow> handle \<Rightarrow> store \<Rightarrow> error option exec \<times> store) \<Rightarrow> store \<Rightarrow> outcome \<times> store" where
  "TransactionCtx ca ctx LoadPolicySyncWatcher fc s =
     (case getDBByCtx ca ctx of
        None \<Rightarrow> (\<lparr>returned = Returns (Some CtxWithoutDBError), reloads = 0, logged = []\<rparr>, s)
      | Some h \<Rightarrow>
          (case db_Begin h s of
             (tx, s1) \<Rightarrow>
               (case handleError tx of
                  Some err \<Rightarrow> (\<lparr>returned = Returns (Some err), reloads = 0, logged = []\<rparr>, s1)
                | None \<Rightarrow>
                    (let ctxEx = ctx\<lparr>ctx_values := (ctx_values ctx)(gormCtxKey ca \<mapsto> DBValue tx)\<rparr>
                     in case fc ctxEx tx s1 of
                          (Panic, s2) \<Rightarrow> rollbackAndReload Panic tx LoadPolicySyncWatcher s2
                        | (Returns (Some err), s2) \<Rightarrow>
                            rollbackAndReload (Returns (Some err)) tx LoadPolicySyncWatcher s2
                        | (Returns None, s2) \<Rightarrow>
                            (case db_Commit tx s2 of
                               (r, s3) \<Rightarrow> (\<lparr>returned = Returns r, reloads = 0, logged = []\<rparr>, s3))))))"

section \<open>Sample data\<close>

text \<open>
  A small engine to put in place of the external one where a concrete run is wanted. It
  follows the description of the engine's model: a membership test on the rules of an
  assertion, and a load that appends the rule to the assertion named by its type.
\<close>

definition hasRule :: "Model \<Rightarrow> string \<Rightarrow> string \<Rightarrow> string list \<Rightarrow> error + bool" where
  "hasRule model sec ptype rule =
     (case map_of (modelSection model sec) ptype of
        None \<Rightarrow> Inl (EngineError ''assertion not found'')
      | Some ast \<Rightarrow> Inr (rule \<in> set (Policy ast)))"

definition addRule :: "string list \<Rightarrow> Model \<Rightarrow> error option \<times> Model" where
  "addRule rule model =
     (case rule of
        [] \<Rightarrow> (Some (EngineError ''empty rule''), model)
      | key # vals \<Rightarrow>
          (None,
           map (\<lambda>se. if fst se = take 1 key
                      then (fst se,
                            map (\<lambda>pe. if fst pe = key
                                       then (fst pe, \<lparr>Policy = Policy (snd pe) @ [vals]\<rparr>)
                                       else pe) (snd se))
                      else se) model))"

definition sampleEngine :: engine where
  "sampleEngine = \<lparr>HasPolicyEx = hasRule, LoadPolicyArray = addRule\<rparr>"

definition aliceRow :: CasbinRule where
  "aliceRow = \<lparr>ID = 1, Ptype = ''p'', V0 = ''alice'', V1 = ''data1'', V2 = ''read'', V3 = [],
               V4 = [], V5 = [], V6 = [], V7 = []\<rparr>"

definition bobRow :: CasbinRule where
  "bobRow = \<lparr>ID = 2, Ptype = ''p'', V0 = ''bob'', V1 = ''data2'', V2 = ''write'', V3 = [],
             V4 = [], V5 = [], V6 = [], V7 = []\<rparr>"

definition groupRow :: CasbinRule where
  "groupRow = \<lparr>ID = 3, Ptype = ''g'', V0 = ''alice'', V1 = ''admin'', V2 = [], V3 = [],
               V4 = [], V5 = [], V6 = [], V7 = []\<rparr>"

text \<open>A store holding the given rows, with no transaction open and nothing sent yet.\<close>

definition storeOf :: "CasbinRule list \<Rightarrow> (nat \<Rightarrow> bool) \<Rightarrow> store" where
  "storeOf rs rej =
     \<lparr>rows = rs, txs = Map.empty, next_tx = 0, next_id = Suc (length rs), trace = [],
      rejects = rej\<rparr>"

definition sampleAdapter :: Adapter where
  "sampleAdapter =
     \<lparr>tablePrefix = [], tableName = ''casbin_rule'', dialect = ''sqlite'', db = Conn,
      isFiltered = False\<rparr>"

text \<open>A model that holds the rule of \<open>aliceRow\<close> and nothing else.\<close>

definition aliceModel :: Model where
  "aliceModel =
     [(''p'', [(''p'', \<lparr>Policy = [[''alice'', ''data1'', ''read'']]\<rparr>)]),
      (''g'', [(''g'', \<lparr>Policy = []\<rparr>)])]"

text \<open>
  A model with 1001 distinct rules of type \<open>p\<close> and no grouping rules; rule \<open>k\<close>
  names its subject by \<open>k div 50 + 1\<close> letters and its object by \<open>k mod 50 + 1\<close>.
\<close>

definition sampleRule :: "nat \<Rightarrow> string list" where
  "sampleRule k = [replicate (Suc (k div 50)) CHR ''s'', replicate (Suc (k mod 50)) CHR ''o'', ''read'']"

definition sampleRules :: "string list list" where
  "sampleRules = map sampleRule [0 ..< 1001]"

definition bigModel :: Model where
  "bigModel = [(''p'', [(''p'', \<lparr>Policy = sampleRules\<rparr>)]), (''g'', [(''g'', \<lparr>Policy = []\<rparr>)])]"

text \<open>The number of rows of each bulk insert in a sequence of statements.\<close>

fun createSizes :: "stmt list \<Rightarrow> nat list" where
  "createSizes [] = []"
| "createSizes (SCreate p ls # sts) = length ls # createSizes sts"
| "createSizes (st # sts) = createSizes sts"

text \<open>
  A callback that adds one rule through the adapter it is given and then fails, and a
  reload hook that fails without touching the store.
\<close>

definition addThenFail :: "Adapter \<Rightarrow> store \<Rightarrow> error option exec \<times> store" where
  "addThenFail b s =
     (Returns (Some (EngineError ''callback failed'')),
      snd (addPolicy (db b) ''p'' ''p'' [''bob'', ''data2'', ''write''] s))"

definition failingReload :: "store \<Rightarrow> error option \<times> store" where
  "failingReload s = (Some (EngineError ''reload failed''), s)"

text \<open>
  A context adapter, a live context that holds no handle, and a cancelled one.
\<close>

definition sampleContextAdapter :: ContextAdapter where
  "sampleContextAdapter =
     \<lparr>tablePrefix = [], tableName = ''casbin_rule'', dialect = ''sqlite'', db = Conn,
      isFiltered = False, gormCtxKey = ''gorm_db''\<rparr>"

definition emptyContext :: Context where
  "emptyContext = \<lparr>ctx_values = Map.empty, ctx_err = None\<rparr>"

definition cancelledContext :: Context where
  "cancelledContext =
     \<lparr>ctx_values = Map.empty, ctx_err = Some (ContextError ''context canceled'')\<rparr>"

text \<open>No bulk insert among the statements sent so far holds more than \<open>flushEvery + 1\<close> rows.\<close>

definition boundedCreates :: "store \<Rightarrow> bool" where
  "boundedCreates s = list_all (\<lambda>n. n \<le> Suc flushEvery) (createSizes (trace s))"

text \<open>The rows of all bulk inserts in a sequence of statements, in the order sent.\<close>

fun createdRows :: "stmt list \<Rightarrow> CasbinRule list" where
  "createdRows [] = []"
| "createdRows (SCreate p ls # sts) = ls @ createdRows sts"
| "createdRows (st # sts) = createdRows sts"

text \<open>The rows of all rules of an assertion map, in the order of its walk.\<close>

definition sectionLines :: "AssertionMap \<Rightarrow> CasbinRule list" where
  "sectionLines am = concat (map (\<lambda>entry. map (savePolicyLine (fst entry)) (Policy (snd entry))) am)"

section \<open>The codec: decoding and round trip\<close>

lemma trimLoop_append: "index < int (length q) \<Longrightarrow> trimLoop (q @ r) index = trimLoop q index"
proof (induction q index rule: trimLoop.induct)
  case (1 p index)
  show ?case
  proof (cases "index < 0")
    case True
    then show ?thesis by (simp add: trimLoop.simps [of _ index])
  next
    case False
    with "1.prems" have n: "nat index < length p" by simp
    show ?thesis
    proof (cases "p ! nat index = []")
      case True
      have "trimLoop (p @ r) (index - 1) = trimLoop p (index - 1)"
        using "1.IH" False True "1.prems" by simp
      then show ?thesis
        using False True "1.prems" n
        by (simp add: trimLoop.simps [of _ index] nth_append)
    next
      case F2: False
      then show ?thesis
        using False "1.prems" n
        by (simp add: trimLoop.simps [of _ index] nth_append)
    qed
  qed
qed

lemma trimLoop_step:
  "0 \<le> index \<Longrightarrow> index < int (length p) \<Longrightarrow>
     trimLoop p index = (if p ! nat index = [] then trimLoop p (index - 1) else Returns index)"
  by (subst trimLoop.simps) simp

lemma trimLoop_neg: "index < 0 \<Longrightarrow> trimLoop p index = Panic"
  by (subst trimLoop.simps) simp

lemma trimLoop_last:
  "trimLoop (q @ [x]) (int (length q)) =
     (if x = [] then trimLoop q (int (length q) - 1) else Returns (int (length q)))"
  by (simp add: trimLoop_step trimLoop_append)

lemma dropTrailing_snoc:
  "dropTrailing (q @ [x]) = (if x = [] then dropTrailing q else q @ [x])"
  by (simp add: dropTrailing_def)

lemma trimLoop_all_empty:
  "\<forall>x \<in> set p. x = [] \<Longrightarrow> trimLoop p (int (length p) - 1) = Panic"
proof (induction p rule: rev_induct)
  case Nil
  show ?case by (simp add: trimLoop_neg)
next
  case (snoc x q)
  then show ?case by (simp add: trimLoop_last)
qed

lemma trimLoop_some_nonempty:
  "\<exists>x \<in> set p. x \<noteq> [] \<Longrightarrow>
     trimLoop p (int (length p) - 1) = Returns (int (length (dropTrailing p)) - 1)"
proof (induction p rule: rev_induct)
  case Nil
  then show ?case by simp
next
  case (snoc x q)
  then show ?case by (auto simp: trimLoop_last dropTrailing_snoc)
qed

lemma length_dropTrailing: "length (dropTrailing p) \<le> length p"
  by (simp add: dropTrailing_def) (metis length_dropWhile_le length_rev)

lemma take_dropTrailing: "take (length (dropTrailing p)) p = dropTrailing p"
  using length_dropTrailing 
  by (induction p rule: rev_induct) (auto simp: dropTrailing_snoc dropTrailing_def)

lemma dropTrailing_nonempty: "\<exists>x \<in> set p. x \<noteq> [] \<Longrightarrow> dropTrailing p \<noteq> []"
  by (induction p rule: rev_induct) (auto simp: dropTrailing_snoc)

lemma trimLine_eq:
  "trimLine line =
     (if \<forall>x \<in> set (lineFields line). x = [] then Panic
      else Returns (dropTrailing (lineFields line)))"
proof (cases "\<forall>x \<in> set (lineFields line). x = []")
  case True
  from trimLoop_all_empty [OF True] True show ?thesis
    by (simp add: trimLine_def Let_def)
next
  case False
  then have ex: "\<exists>x \<in> set (lineFields line). x \<noteq> []" by blast
  have ne: "dropTrailing (lineFields line) \<noteq> []" by (rule dropTrailing_nonempty [OF ex])
  then have "nat (int (length (dropTrailing (lineFields line))) - 1 + 1)
             = length (dropTrailing (lineFields line))" by simp
  with trimLoop_some_nonempty [OF ex] False show ?thesis
    by (simp add: trimLine_def Let_def take_dropTrailing del: One_nat_def)
qed

lemma savePolicyLine_fields:
  "Ptype (savePolicyLine ptype rule) = ptype"
  "V0 (savePolicyLine ptype rule) = (if 0 < length rule then rule ! 0 else [])"
  "V1 (savePolicyLine ptype rule) = (if 1 < length rule then rule ! 1 else [])"
  "V2 (savePolicyLine ptype rule) = (if 2 < length rule then rule ! 2 else [])"
  "V3 (savePolicyLine ptype rule) = (if 3 < length rule then rule ! 3 else [])"
  "V4 (savePolicyLine ptype rule) = (if 4 < length rule then rule ! 4 else [])"
  "V5 (savePolicyLine ptype rule) = (if 5 < length rule then rule ! 5 else [])"
  "V6 (savePolicyLine ptype rule) = (if 6 < length rule then rule ! 6 else [])"
  "V7 (savePolicyLine ptype rule) = (if 7 < length rule then rule ! 7 else [])"
  "ID (savePolicyLine ptype rule) = 0"
  by (simp_all add: savePolicyLine_def getTableInstance_def Let_def)

lemma pad_nth:
  "i < 8 \<Longrightarrow> length rule \<le> 8 \<Longrightarrow>
     (rule @ replicate (8 - length rule) []) ! i = (if i < length rule then rule ! i else [])"
  by (simp add: nth_append)

lemma lineFields_savePolicyLine:
  assumes "length rule \<le> 8"
  shows "lineFields (savePolicyLine ptype rule) = ptype # rule @ replicate (8 - length rule) []"
proof -
  let ?pad = "rule @ replicate (8 - length rule) []"
  have len: "length ?pad = 8" using assms by simp
  have "?pad = map (\<lambda>i. ?pad ! i) [0..<8]"
    using len by (metis map_nth)
  also have "\<dots> = [?pad ! 0, ?pad ! 1, ?pad ! 2, ?pad ! 3, ?pad ! 4, ?pad ! 5, ?pad ! 6, ?pad ! 7]"
    by (simp add: eval_nat_numeral upt_rec)
  finally have "?pad = [?pad ! 0, ?pad ! 1, ?pad ! 2, ?pad ! 3, ?pad ! 4, ?pad ! 5, ?pad ! 6, ?pad ! 7]" .
  moreover have "lineFields (savePolicyLine ptype rule) =
      [ptype, ?pad ! 0, ?pad ! 1, ?pad ! 2, ?pad ! 3, ?pad ! 4, ?pad ! 5, ?pad ! 6, ?pad ! 7]"
    unfolding lineFields_def savePolicyLine_fields
    using assms by (simp add: pad_nth [OF _ assms])
  ultimately show ?thesis by simp
qed

lemma dropTrailing_pad:
  "ty \<noteq> [] \<Longrightarrow> dropTrailing (ty # vs @ replicate k []) = trimTrailingEmpty (ty # vs)"
  by (simp add: dropTrailing_def trimTrailingEmpty_def dropWhile_append)


lemma trimLoop_down:
  "\<forall>x \<in> set p. x = [] \<Longrightarrow> - 1 \<le> index \<Longrightarrow> index < int (length p) \<Longrightarrow>
     trimLoop p index = trimLoop p (- 1)"
proof (induction p index rule: trimLoop.induct)
  case (1 p index)
  show ?case
  proof (cases "index = - 1")
    case True
    then show ?thesis by simp
  next
    case False
    with "1.prems" have ge: "0 \<le> index" by simp
    then have "p ! nat index = []" using "1.prems" by simp
    moreover have "trimLoop p (index - 1) = trimLoop p (- 1)"
      using "1.IH" "1.prems" ge calculation by simp
    ultimately show ?thesis using ge "1.prems" by (simp add: trimLoop_step)
  qed
qed

lemma PreviewLoop_panic:
  "i < length rules \<Longrightarrow> trimLine (rules ! i) = Panic \<Longrightarrow> PreviewLoop E model rules i j = Panic"
  by (subst PreviewLoop.simps) simp

text \<open>
  Claim C2. For every rule tuple of one to nine strings whose first element, the type, is
  not empty: encoding the tuple with \<open>savePolicyLine\<close> and decoding the row as
  \<open>loadPolicyLine\<close> does yields the tuple without its trailing empty strings, and that
  is the tuple \<open>loadPolicyLine\<close> hands to the engine.
\<close>

theorem C2_roundtrip:
  assumes "1 \<le> length t" and "length t \<le> 9" and "hd t \<noteq> []"
  shows "trimLine (savePolicyLine (hd t) (tl t)) = Returns (trimTrailingEmpty t) \<and>
         loadPolicyLine E (savePolicyLine (hd t) (tl t)) model =
           Returns (LoadPolicyArray E (trimTrailingEmpty t) model)"
proof -
  from assms obtain ty vs where t: "t = ty # vs" by (cases t) auto
  with assms have len: "length vs \<le> 8" and ty: "ty \<noteq> []" by auto
  have fields: "lineFields (savePolicyLine ty vs) = ty # vs @ replicate (8 - length vs) []"
    by (rule lineFields_savePolicyLine [OF len])
  have "ty \<in> set (lineFields (savePolicyLine ty vs))" by (simp add: fields)
  with ty have "\<not> (\<forall>x \<in> set (lineFields (savePolicyLine ty vs)). x = [])" by blast
  then have "trimLine (savePolicyLine ty vs) = Returns (dropTrailing (lineFields (savePolicyLine ty vs)))"
    by (simp only: trimLine_eq if_False)
  also have "\<dots> = Returns (trimTrailingEmpty (ty # vs))"
    by (simp only: fields dropTrailing_pad [OF ty])
  finally have "trimLine (savePolicyLine ty vs) = Returns (trimTrailingEmpty (ty # vs))" .
  then show ?thesis by (simp add: t loadPolicyLine_def)
qed

theorem C2_roundtrip_witness:
  "1 \<le> length [''p'', ''alice'', [], ''read'', []] \<and>
   length [''p'', ''alice'', [], ''read'', []] \<le> 9 \<and>
   hd [''p'', ''alice'', [], ''read'', []] \<noteq> [] \<and>
   trimLine (savePolicyLine ''p'' [''alice'', [], ''read'', []]) =
     Returns [''p'', ''alice'', [], ''read'']"
  using C2_roundtrip [of "[''p'', ''alice'', [], ''read'', []]"]
  by (simp add: trimTrailingEmpty_def)

text \<open>
  Claim C10. The trimming loop has no lower bound. On a row whose type and eight values
  are all empty it runs from index 8 down to index -1 and panics there, in
  \<open>loadPolicyLine\<close> and in \<open>Preview\<close> alike, returning neither a result nor an
  error. On every row whose type is not empty it stops at an index between 0 and 8.
\<close>

theorem C10_decode_panics_on_empty_row:
  "(Ptype line = [] \<and> V0 line = [] \<and> V1 line = [] \<and> V2 line = [] \<and> V3 line = [] \<and>
    V4 line = [] \<and> V5 line = [] \<and> V6 line = [] \<and> V7 line = [] \<longrightarrow>
      trimLoop (lineFields line) 8 = trimLoop (lineFields line) (- 1) \<and>
      trimLoop (lineFields line) (- 1) = Panic \<and>
      trimLine line = Panic \<and>
      loadPolicyLine E line model = Panic \<and>
      Preview E (line # rules) model = Panic) \<and>
   (Ptype line \<noteq> [] \<longrightarrow>
      (\<exists>index. trimLoop (lineFields line) 8 = Returns index \<and> 0 \<le> index \<and> index < 9 \<and>
         trimLine line = Returns (take (nat (index + 1)) (lineFields line))))"
proof (intro conjI impI)
  assume e: "Ptype line = [] \<and> V0 line = [] \<and> V1 line = [] \<and> V2 line = [] \<and> V3 line = [] \<and>
    V4 line = [] \<and> V5 line = [] \<and> V6 line = [] \<and> V7 line = []"
  then have all: "\<forall>x \<in> set (lineFields line). x = []" by (simp add: lineFields_def)
  show "trimLoop (lineFields line) 8 = trimLoop (lineFields line) (- 1)"
    by (rule trimLoop_down [OF all]) (simp_all add: lineFields_def)
  show "trimLoop (lineFields line) (- 1) = Panic" by (simp add: trimLoop_neg)
  show p: "trimLine line = Panic" using all by (simp add: trimLine_eq)
  show "loadPolicyLine E line model = Panic" by (simp add: loadPolicyLine_def p)
  have "PreviewLoop E model (line # rules) 0 0 = Panic"
    by (rule PreviewLoop_panic) (simp_all add: p)
  then show "Preview E (line # rules) model = Panic" by (simp add: Preview_def)
next
  assume ne: "Ptype line \<noteq> []"
  have "Ptype line \<in> set (lineFields line)" by (simp add: lineFields_def)
  with ne have ex: "\<exists>x \<in> set (lineFields line). x \<noteq> []" by blast
  let ?d = "dropTrailing (lineFields line)"
  have l8: "int (length (lineFields line)) - 1 = 8" by (simp add: lineFields_def)
  have loop: "trimLoop (lineFields line) 8 = Returns (int (length ?d) - 1)"
    using trimLoop_some_nonempty [OF ex] by (simp only: l8)
  have "?d \<noteq> []" by (rule dropTrailing_nonempty [OF ex])
  then have lo: "0 \<le> int (length ?d) - 1" by (cases ?d) auto
  have "length ?d \<le> 9" using length_dropTrailing [of "lineFields line"] by (simp add: lineFields_def)
  then have hi: "int (length ?d) - 1 < 9" by simp
  have "trimLine line = Returns (take (nat (int (length ?d) - 1 + 1)) (lineFields line))"
    using loop by (simp add: trimLine_def Let_def l8 del: One_nat_def)
  with loop lo hi show "\<exists>index. trimLoop (lineFields line) 8 = Returns index \<and> 0 \<le> index \<and>
      index < 9 \<and> trimLine line = Returns (take (nat (index + 1)) (lineFields line))"
    by blast
qed

theorem C10_decode_witness:
  "trimLine getTableInstance = Panic \<and>
   (\<exists>index. trimLoop (lineFields (getTableInstance\<lparr>Ptype := ''p''\<rparr>)) 8 = Returns index \<and>
      0 \<le> index \<and> index < 9)"
  using C10_decode_panics_on_empty_row [of getTableInstance]
    C10_decode_panics_on_empty_row [of "getTableInstance\<lparr>Ptype := ''p''\<rparr>"]
  by (simp add: getTableInstance_def) blast

section \<open>Loading: the pre-check pass\<close>












lemma sample_loaded:
  "loadLines sampleEngine [bobRow] aliceModel =
     Returns (None, [(''p'', [(''p'', \<lparr>Policy = [[''alice'', ''data1'', ''read''], [''bob'', ''data2'', ''write'']]\<rparr>)]),
      (''g'', [(''g'', \<lparr>Policy = []\<rparr>)])])"
  by (simp add: loadPolicyLine_def trimLine_eq dropTrailing_def lineFields_def
      bobRow_def sampleEngine_def addRule_def aliceModel_def)

section \<open>Removing and updating by filter\<close>

lemma queryString_type_only: "queryString (getTableInstance\<lparr>Ptype := ptype\<rparr>) = [(Cptype, ptype)]"
  by (simp add: queryString_def getTableInstance_def)

lemma if_snoc: "(if b then q @ [x] else q) = q @ (if b then [x] else [])"
  by simp

lemma queryString_Cons:
  "queryString c = (Cptype, Ptype c) #
     (if V0 c \<noteq> [] then [(Cv0, V0 c)] else []) @ (if V1 c \<noteq> [] then [(Cv1, V1 c)] else []) @
     (if V2 c \<noteq> [] then [(Cv2, V2 c)] else []) @ (if V3 c \<noteq> [] then [(Cv3, V3 c)] else []) @
     (if V4 c \<noteq> [] then [(Cv4, V4 c)] else []) @ (if V5 c \<noteq> [] then [(Cv5, V5 c)] else []) @
     (if V6 c \<noteq> [] then [(Cv6, V6 c)] else []) @ (if V7 c \<noteq> [] then [(Cv7, V7 c)] else [])"
  by (simp add: queryString_def Let_def)

lemma queryString_nonempty: "queryString c \<noteq> []"
  by (subst queryString_Cons) simp

lemma matches_type_only: "matches [(Cptype, ptype)] r = (Ptype r = ptype)"
  by (simp add: matches_def)

lemma matches_type_only_fun: "matches [(Cptype, ptype)] = (\<lambda>r. Ptype r = ptype)"
  by (rule ext) (simp add: matches_def)

lemma checkQueryField_all_empty:
  "\<forall>v \<in> set fieldValues. v = [] \<Longrightarrow> checkQueryField fieldValues = Some QueryFieldAllEmpty"
  by (induction fieldValues) simp_all

lemma removeFilteredPolicy_empty_window:
  "fieldIndex \<noteq> - 1 \<Longrightarrow> \<forall>v \<in> set fieldValues. v = [] \<Longrightarrow>
     removeFilteredPolicy h sec ptype fieldIndex fieldValues s = (Some QueryFieldAllEmpty, s)"
  by (simp add: removeFilteredPolicy_def checkQueryField_all_empty)

text \<open>
  Claim C7. With field index -1, \<open>removeFilteredPolicy\<close> does not look at the values
  at all: it sends one delete on the type alone. When the store accepts it, the rows of
  that type are gone and every other row stays, on the ambient connection at once and
  inside an open transaction in what that transaction sees.
\<close>

theorem C7_removeFiltered_minus_one:
  "(\<not> rejects s (length (trace s)) \<longrightarrow>
      removeFilteredPolicy Conn sec ptype (- 1) fieldValues s =
        (None, s\<lparr>trace := trace s @ [SDelete PConn [(Cptype, ptype)]],
                 rows := filter (\<lambda>r. Ptype r \<noteq> ptype) (rows s)\<rparr>)) \<and>
   (\<not> rejects s (length (trace s)) \<and> txs s n = Some ws \<longrightarrow>
      fst (removeFilteredPolicy (Tx n) sec ptype (- 1) fieldValues s) = None \<and>
      view (PTx n) (snd (removeFilteredPolicy (Tx n) sec ptype (- 1) fieldValues s)) =
        filter (\<lambda>r. Ptype r \<noteq> ptype) (view (PTx n) s))"
  by (simp add: removeFilteredPolicy_def rawDelete_def queryString_type_only db_Delete_def
      db_write_def issue_def view_def matches_type_only)

theorem C7_removeFiltered_witness:
  "removeFilteredPolicy Conn ''p'' ''p'' (- 1) [[], []] (storeOf [aliceRow, bobRow, groupRow] (\<lambda>n. False)) =
     (None, (storeOf [aliceRow, bobRow, groupRow] (\<lambda>n. False))
              \<lparr>trace := [SDelete PConn [(Cptype, ''p'')]], rows := [groupRow]\<rparr>)"
  using C7_removeFiltered_minus_one [of "storeOf [aliceRow, bobRow, groupRow] (\<lambda>n. False)" "''p''" "''p''" "[[], []]"]
  by (simp add: storeOf_def aliceRow_def bobRow_def groupRow_def)


lemma setCell_same: "cell c line = v \<Longrightarrow> setCell c v line = line"
  by (cases c) auto

lemma windowCell_all_empty:
  assumes "\<forall>v \<in> set fieldValues. v = []" and "cell c line = []"
  shows "windowCell fieldIndex fieldValues k c line = line"
proof (cases "fieldIndex \<le> k \<and> k < fieldIndex + int (length fieldValues)")
  case True
  then have "nat (k - fieldIndex) < length fieldValues" by (simp add: nat_less_iff)
  then have "fieldValues ! nat (k - fieldIndex) = []" using assms(1) by simp
  with True assms(2) show ?thesis by (simp add: windowCell_def setCell_same)
next
  case False
  then show ?thesis by (auto simp: windowCell_def)
qed

lemma windowLine_all_empty:
  assumes "\<forall>v \<in> set fieldValues. v = []"
  shows "windowLine ptype fieldIndex fieldValues = getTableInstance\<lparr>Ptype := ptype\<rparr>"
proof -
  have c: "\<And>c. c \<noteq> Cptype \<Longrightarrow> cell c (getTableInstance\<lparr>Ptype := ptype\<rparr>) = []"
    subgoal for c by (cases c) (simp_all add: getTableInstance_def)
    done
  have w: "\<And>k c. c \<noteq> Cptype \<Longrightarrow>
      windowCell fieldIndex fieldValues k c (getTableInstance\<lparr>Ptype := ptype\<rparr>) =
        getTableInstance\<lparr>Ptype := ptype\<rparr>"
    by (rule windowCell_all_empty [OF assms c])
  show ?thesis
    unfolding windowLine_def Let_def by (simp add: w)
qed

lemma updateFilteredPolicies_empty_window:
  assumes "\<forall>v \<in> set fieldValues. v = []" and "\<forall>k. \<not> rejects s k"
  shows "fst (updateFilteredPolicies Conn sec ptype [] fieldIndex fieldValues s) =
           (map toStringPolicy (filter (\<lambda>r. Ptype r = ptype) (rows s)), None) \<and>
         rows (snd (updateFilteredPolicies Conn sec ptype [] fieldIndex fieldValues s)) =
           filter (\<lambda>r. Ptype r \<noteq> ptype) (rows s)"
  using assms(2)
  by (simp add: updateFilteredPolicies_def windowLine_all_empty [OF assms(1)] queryString_type_only
      db_Begin_def db_Find_def db_Delete_def db_write_def db_Commit_def commit_pool_def issue_def
      view_def matches_type_only matches_type_only_fun matchesIn_def Let_def)

text \<open>
  Claim C3. An all-empty window makes \<open>removeFilteredPolicy\<close> return the validation
  error with the store untouched (\<open>removeFilteredPolicy_empty_window\<close>). The same
  window given to \<open>updateFilteredPolicies\<close> is not checked: on a store holding two
  rules of type \<open>p\<close> and one of type \<open>g\<close>, the window \<open>("", "")\<close> at index 0 returns
  no error, reports both \<open>p\<close> rules as replaced and leaves the \<open>g\<close> rule only.
\<close>

theorem C3_updateFiltered_unchecked:
  "fst (updateFilteredPolicies Conn ''p'' ''p'' [] 0 [[], []]
          (storeOf [aliceRow, bobRow, groupRow] (\<lambda>n. False))) =
     ([[''p'', ''alice'', ''data1'', ''read''], [''p'', ''bob'', ''data2'', ''write'']], None) \<and>
   rows (snd (updateFilteredPolicies Conn ''p'' ''p'' [] 0 [[], []]
          (storeOf [aliceRow, bobRow, groupRow] (\<lambda>n. False)))) = [groupRow] \<and>
   removeFilteredPolicy Conn ''p'' ''p'' 0 [[], []] (storeOf [aliceRow, bobRow, groupRow] (\<lambda>n. False)) =
     (Some QueryFieldAllEmpty, storeOf [aliceRow, bobRow, groupRow] (\<lambda>n. False))"
proof -
  have "\<forall>v \<in> set [[], []::string]. v = []" by simp
  moreover have "\<forall>k. \<not> rejects (storeOf [aliceRow, bobRow, groupRow] (\<lambda>n. False)) k"
    by (simp add: storeOf_def)
  ultimately show ?thesis
    using updateFilteredPolicies_empty_window
      [of "[[], []]" "storeOf [aliceRow, bobRow, groupRow] (\<lambda>n. False)" "''p''" "''p''" 0]
      removeFilteredPolicy_empty_window
      [of 0 "[[], []]" Conn "''p''" "''p''" "storeOf [aliceRow, bobRow, groupRow] (\<lambda>n. False)"]
    by (simp add: storeOf_def aliceRow_def bobRow_def groupRow_def toStringPolicy_def lineFields_def)
qed

section \<open>Batch removal\<close>

lemma rawDelete_Tx:
  "txs s n = Some ws \<Longrightarrow>
     rawDelete (Tx n) line s =
       (if rejects s (length (trace s))
        then (Some (StoreError (length (trace s))), s\<lparr>trace := trace s @ [SDelete (PTx n) (queryString line)]\<rparr>)
        else (None, s\<lparr>trace := trace s @ [SDelete (PTx n) (queryString line)],
                      txs := (txs s)(n \<mapsto> ws @ [WDelete (queryString line)])\<rparr>))"
  by (simp add: rawDelete_def db_Delete_def queryString_nonempty db_write_def issue_def)

lemma removePoliciesLoop_open:
  "txs s n = Some ws \<Longrightarrow>
     fst (removePoliciesLoop (Tx n) ptype rules s) = Returns None \<and>
     trace (snd (removePoliciesLoop (Tx n) ptype rules s)) =
       trace s @ map (\<lambda>rule. SDelete (PTx n) (queryString (savePolicyLine ptype rule))) rules \<and>
     rejects (snd (removePoliciesLoop (Tx n) ptype rules s)) = rejects s \<and>
     txs (snd (removePoliciesLoop (Tx n) ptype rules s)) n \<noteq> None"
proof (induction rules arbitrary: s ws)
  case Nil
  then show ?case by simp
next
  case (Cons rule rules)
  let ?st = "SDelete (PTx n) (queryString (savePolicyLine ptype rule))"
  show ?case
  proof (cases "rejects s (length (trace s))")
    case True
    let ?s1 = "s\<lparr>trace := trace s @ [?st]\<rparr>"
    have "txs ?s1 n = Some ws" using Cons.prems by simp
    from Cons.IH [OF this] show ?thesis
      using True Cons.prems by (simp add: rawDelete_Tx)
  next
    case False
    let ?s1 = "s\<lparr>trace := trace s @ [?st],
                 txs := (txs s)(n \<mapsto> ws @ [WDelete (queryString (savePolicyLine ptype rule))])\<rparr>"
    have "txs ?s1 n = Some (ws @ [WDelete (queryString (savePolicyLine ptype rule))])" by simp
    from Cons.IH [OF this] show ?thesis
      using False Cons.prems by (simp add: rawDelete_Tx)
  qed
qed

text \<open>
  Claim C6. On the ambient connection, once \<open>Begin\<close> is accepted, \<open>removePolicies\<close>
  sends one delete per rule, in order, between the \<open>Begin\<close> and the \<open>Commit\<close> of one
  transaction, whatever the store answers to each delete; what it returns is the answer
  to the \<open>Commit\<close> alone.
\<close>

theorem C6_removePolicies_swallows_delete_errors:
  assumes "\<not> rejects s (length (trace s))"
  shows "fst (removePolicies Conn sec ptype rules s) =
           Returns (if rejects s (length (trace s) + length rules + 1)
                    then Some (StoreError (length (trace s) + length rules + 1)) else None) \<and>
         trace (snd (removePolicies Conn sec ptype rules s)) =
           trace s @ [SBegin (next_tx s)] @
           map (\<lambda>rule. SDelete (PTx (next_tx s)) (queryString (savePolicyLine ptype rule))) rules @
           [SCommit (next_tx s)]"
proof -
  let ?n = "next_tx s"
  let ?s1 = "s\<lparr>trace := trace s @ [SBegin ?n], txs := (txs s)(?n \<mapsto> []), next_tx := Suc ?n\<rparr>"
  have b: "db_Begin Conn s = (Tx ?n, ?s1)"
    using assms by (simp add: db_Begin_def issue_def)
  obtain s2 where l: "removePoliciesLoop (Tx ?n) ptype rules ?s1 = (Returns None, s2)"
    and t: "trace s2 = trace ?s1 @ map (\<lambda>rule. SDelete (PTx ?n) (queryString (savePolicyLine ptype rule))) rules"
    and r: "rejects s2 = rejects s"
    and "txs s2 ?n \<noteq> None"
    using removePoliciesLoop_open [of ?s1 ?n "[]" ptype rules]
    by (cases "removePoliciesLoop (Tx ?n) ptype rules ?s1") simp
  then obtain ws2 where o: "txs s2 ?n = Some ws2" by blast
  have c: "fst (db_Commit (Tx ?n) s2) =
             (if rejects s (length (trace s) + length rules + 1)
              then Some (StoreError (length (trace s) + length rules + 1)) else None)"
    by (simp add: db_Commit_def commit_pool_def issue_def o t r)
  have d: "trace (snd (db_Commit (Tx ?n) s2)) = trace s2 @ [SCommit ?n]"
    by (simp add: db_Commit_def commit_pool_def issue_def o)
  have "removePolicies Conn sec ptype rules s =
          (Returns (fst (db_Commit (Tx ?n) s2)), snd (db_Commit (Tx ?n) s2))"
    by (simp add: removePolicies_def db_Transaction_def b l split: prod.splits)
  with c d t show ?thesis by simp
qed

lemma sample_queries:
  "queryString (savePolicyLine ''p'' [''alice'', ''data1'', ''read'']) =
     [(Cptype, ''p''), (Cv0, ''alice''), (Cv1, ''data1''), (Cv2, ''read'')]"
  "queryString (savePolicyLine ''p'' [''bob'', ''data2'', ''write'']) =
     [(Cptype, ''p''), (Cv0, ''bob''), (Cv1, ''data2''), (Cv2, ''write'')]"
  by (simp_all add: queryString_Cons savePolicyLine_fields)

theorem C6_removePolicies_witness:
  "fst (removePolicies Conn ''p'' ''p'' [[''alice'', ''data1'', ''read''], [''bob'', ''data2'', ''write'']]
          (storeOf [aliceRow, bobRow] (\<lambda>n. n = 1))) = Returns None \<and>
   trace (snd (removePolicies Conn ''p'' ''p'' [[''alice'', ''data1'', ''read''], [''bob'', ''data2'', ''write'']]
          (storeOf [aliceRow, bobRow] (\<lambda>n. n = 1)))) =
     [SBegin 0,
      SDelete (PTx 0) [(Cptype, ''p''), (Cv0, ''alice''), (Cv1, ''data1''), (Cv2, ''read'')],
      SDelete (PTx 0) [(Cptype, ''p''), (Cv0, ''bob''), (Cv1, ''data2''), (Cv2, ''write'')],
      SCommit 0]"
proof -
  have "\<not> rejects (storeOf [aliceRow, bobRow] (\<lambda>n. n = 1)) (length (trace (storeOf [aliceRow, bobRow] (\<lambda>n. n = 1))))"
    by (simp add: storeOf_def)
  from C6_removePolicies_swallows_delete_errors [OF this, of "''p''" "''p''"
        "[[''alice'', ''data1'', ''read''], [''bob'', ''data2'', ''write'']]"]
  show ?thesis by (simp add: storeOf_def sample_queries)
qed

lemma removePolicies_sample_rows:
  "rows (snd (removePolicies Conn ''p'' ''p'' [[''alice'', ''data1'', ''read''], [''bob'', ''data2'', ''write'']]
          (storeOf [aliceRow, bobRow] (\<lambda>n. n = 1)))) = [aliceRow]"
  by (simp add: removePolicies_def db_Transaction_def db_Begin_def issue_def storeOf_def
      rawDelete_def db_Delete_def db_write_def db_Commit_def commit_pool_def
      sample_queries matches_def aliceRow_def bobRow_def)

section \<open>Saving\<close>

lemma savePolicyRules_no_flush:
  "length lines + length rules \<le> flushEvery \<Longrightarrow>
     savePolicyRules tx ptype rules lines s = (Inr (lines @ map (savePolicyLine ptype) rules), s)"
  by (induction rules arbitrary: lines) (simp_all add: Let_def)

lemma savePolicyRules_append:
  "savePolicyRules tx ptype (xs @ ys) lines s =
     (case savePolicyRules tx ptype xs lines s of
        (Inl err, s') \<Rightarrow> (Inl err, s')
      | (Inr lines', s') \<Rightarrow> savePolicyRules tx ptype ys lines' s')"
  by (induction xs arbitrary: lines s) (auto simp: Let_def split: prod.splits option.splits)

lemma savePolicyRules_flush:
  assumes "length rules = Suc flushEvery"
  shows "savePolicyRules tx ptype rules [] s =
           (case db_Create tx (map (savePolicyLine ptype) rules) s of
              (Some err, s') \<Rightarrow> (Inl err, db_Rollback tx s')
            | (None, s') \<Rightarrow> (Inr [], s'))"
proof -
  from assms obtain xs x where r: "rules = xs @ [x]" and l: "length xs = flushEvery"
    by (metis length_Suc_conv_rev)
  have "savePolicyRules tx ptype xs [] s = (Inr (map (savePolicyLine ptype) xs), s)"
    using savePolicyRules_no_flush [of "[]" xs tx ptype s] l by simp
  then show ?thesis
    by (simp add: r savePolicyRules_append l Let_def split: prod.splits option.splits)
qed

lemma length_sampleRules: "length sampleRules = 1001"
  by (simp only: sampleRules_def length_map length_upt)

lemma sampleRules_nonempty: "sampleRules \<noteq> []"
  using length_sampleRules by (metis list.size(3) zero_neq_numeral)

subsection \<open>The size of the bulk inserts\<close>

lemma createSizes_append: "createSizes (xs @ ys) = createSizes xs @ createSizes ys"
  by (induction xs rule: createSizes.induct) simp_all

lemma createdRows_append: "createdRows (xs @ ys) = createdRows xs @ createdRows ys"
  by (induction xs rule: createdRows.induct) simp_all

lemma trace_db_Create:
  "trace (snd (db_Create h ls s)) = trace s \<or>
   (\<exists>p. trace (snd (db_Create h ls s)) = trace s @ [SCreate p ls])"
  by (auto simp: db_Create_def db_write_def issue_def split: handle.splits option.splits)

lemma trace_db_Rollback:
  "trace (db_Rollback h s) = trace s \<or> (\<exists>n. trace (db_Rollback h s) = trace s @ [SRollback n])"
  by (auto simp: db_Rollback_def rollback_pool_def split: handle.splits option.splits)

lemma trace_db_Commit:
  "trace (snd (db_Commit h s)) = trace s \<or> (\<exists>n. trace (snd (db_Commit h s)) = trace s @ [SCommit n])"
  by (auto simp: db_Commit_def commit_pool_def issue_def split: handle.splits option.splits)

lemma trace_db_Begin:
  "trace (snd (db_Begin h s)) = trace s \<or> (\<exists>n. trace (snd (db_Begin h s)) = trace s @ [SBegin n])"
  by (auto simp: db_Begin_def issue_def split: handle.splits option.splits)

lemma trace_truncateTable:
  "trace (snd (truncateTable a h s)) = trace s \<or>
   (\<exists>p q. trace (snd (truncateTable a h s)) = trace s @ [SExec p q])"
  by (auto simp: truncateTable_def db_Exec_def db_write_def issue_def Let_def
      split: handle.splits option.splits)

lemma bounded_db_Create:
  "boundedCreates s \<Longrightarrow> length ls \<le> Suc flushEvery \<Longrightarrow> boundedCreates (snd (db_Create h ls s))"
  using trace_db_Create [of h ls s] by (auto simp: boundedCreates_def createSizes_append)

lemma bounded_db_Rollback: "boundedCreates s \<Longrightarrow> boundedCreates (db_Rollback h s)"
  using trace_db_Rollback [of h s] by (auto simp: boundedCreates_def createSizes_append)

lemma bounded_db_Commit: "boundedCreates s \<Longrightarrow> boundedCreates (snd (db_Commit h s))"
  using trace_db_Commit [of h s] by (auto simp: boundedCreates_def createSizes_append)

lemma bounded_db_Begin: "boundedCreates s \<Longrightarrow> boundedCreates (snd (db_Begin h s))"
  using trace_db_Begin [of h s] by (auto simp: boundedCreates_def createSizes_append)

lemma bounded_truncateTable: "boundedCreates s \<Longrightarrow> boundedCreates (snd (truncateTable a h s))"
  using trace_truncateTable [of a h s] by (auto simp: boundedCreates_def createSizes_append)

lemma savePolicyRules_bounded:
  "boundedCreates s \<Longrightarrow> length lines \<le> flushEvery \<Longrightarrow>
     boundedCreates (snd (savePolicyRules tx ptype rules lines s)) \<and>
     (\<forall>lines'. fst (savePolicyRules tx ptype rules lines s) = Inr lines' \<longrightarrow> length lines' \<le> flushEvery)"
proof (induction rules arbitrary: lines s)
  case Nil
  then show ?case by simp
next
  case (Cons rule rules)
  let ?ls = "lines @ [savePolicyLine ptype rule]"
  show ?case
  proof (cases "length ?ls > flushEvery")
    case True
    obtain r s' where c: "db_Create tx ?ls s = (r, s')" by (cases "db_Create tx ?ls s")
    have "boundedCreates (snd (db_Create tx ?ls s))"
      using Cons.prems by (intro bounded_db_Create) simp_all
    with c have b: "boundedCreates s'" by simp
    show ?thesis
    proof (cases r)
      case None
      have "savePolicyRules tx ptype (rule # rules) lines s = savePolicyRules tx ptype rules [] s'"
        using True None c by (simp add: Let_def)
      with Cons.IH [OF b, of "[]"] show ?thesis by simp
    next
      case (Some err)
      have "savePolicyRules tx ptype (rule # rules) lines s = (Inl err, db_Rollback tx s')"
        using True Some c by (simp add: Let_def)
      with bounded_db_Rollback [OF b] show ?thesis by simp
    qed
  next
    case False
    then have "savePolicyRules tx ptype (rule # rules) lines s = savePolicyRules tx ptype rules ?ls s"
      by (simp add: Let_def)
    moreover from False have "length ?ls \<le> flushEvery" by simp
    ultimately show ?thesis using Cons.IH [OF Cons.prems(1), of ?ls] by simp
  qed
qed

lemma savePolicySection_bounded:
  "boundedCreates s \<Longrightarrow> length lines \<le> flushEvery \<Longrightarrow>
     boundedCreates (snd (savePolicySection tx am lines s)) \<and>
     (\<forall>lines'. fst (savePolicySection tx am lines s) = Inr lines' \<longrightarrow> length lines' \<le> flushEvery)"
proof (induction am arbitrary: lines s)
  case Nil
  then show ?case by simp
next
  case (Cons entry entries)
  obtain r s' where c: "savePolicyRules tx (fst entry) (Policy (snd entry)) lines s = (r, s')"
    by (cases "savePolicyRules tx (fst entry) (Policy (snd entry)) lines s")
  from savePolicyRules_bounded [OF Cons.prems, of tx "fst entry" "Policy (snd entry)"] c
  have b: "boundedCreates s'"
    and l: "\<forall>lines'. r = Inr lines' \<longrightarrow> length lines' \<le> flushEvery" by simp_all
  show ?case
  proof (cases r)
    case (Inl err)
    then have "savePolicySection tx (entry # entries) lines s = (Inl err, s')"
      using c by simp
    with b show ?thesis by simp
  next
    case (Inr lines')
    then have "savePolicySection tx (entry # entries) lines s = savePolicySection tx entries lines' s'"
      using c by simp
    moreover from l Inr have "length lines' \<le> flushEvery" by simp
    ultimately show ?thesis using Cons.IH [OF b, of lines'] by simp
  qed
qed

lemma savePolicy_bounded:
  assumes "boundedCreates s"
  shows "boundedCreates (snd (savePolicy a h model s))"
proof -
  obtain tx s1 where b: "db_Begin h s = (tx, s1)" by (cases "db_Begin h s")
  then have b1: "boundedCreates s1" using bounded_db_Begin [OF assms, of h] by simp
  obtain t s2 where tr: "truncateTable a h s1 = (t, s2)" by (cases "truncateTable a h s1")
  then have b2: "boundedCreates s2" using bounded_truncateTable [OF b1, of a h] by simp
  show ?thesis
  proof (cases t)
    case (Some err)
    then show ?thesis
      using b tr bounded_db_Rollback [OF b2] by (simp add: savePolicy_def)
  next
    case None
    obtain r3 s3 where p: "savePolicySection tx (modelSection model ''p'') [] s2 = (r3, s3)"
      by (cases "savePolicySection tx (modelSection model ''p'') [] s2")
    from savePolicySection_bounded [OF b2, of "[]" tx "modelSection model ''p''"] p
    have b3: "boundedCreates s3" and l3: "\<forall>lines'. r3 = Inr lines' \<longrightarrow> length lines' \<le> flushEvery"
      by simp_all
    show ?thesis
    proof (cases r3)
      case (Inl err)
      then show ?thesis using b tr None p b3 by (simp add: savePolicy_def)
    next
      case (Inr lines3)
      with l3 have len3: "length lines3 \<le> flushEvery" by simp
      obtain r4 s4 where g: "savePolicySection tx (modelSection model ''g'') lines3 s3 = (r4, s4)"
        by (cases "savePolicySection tx (modelSection model ''g'') lines3 s3")
      from savePolicySection_bounded [OF b3 len3, of tx "modelSection model ''g''"] g
      have b4: "boundedCreates s4" and l4: "\<forall>lines'. r4 = Inr lines' \<longrightarrow> length lines' \<le> flushEvery"
        by simp_all
      show ?thesis
      proof (cases r4)
        case (Inl err)
        then show ?thesis using b tr None p Inr g b4 by (simp add: savePolicy_def)
      next
        case I4: (Inr lines4)
        with l4 have "length lines4 \<le> Suc flushEvery" by simp
        obtain r5 s5 where c: "db_Create tx lines4 s4 = (r5, s5)" by (cases "db_Create tx lines4 s4")
        from bounded_db_Create [OF b4 \<open>length lines4 \<le> Suc flushEvery\<close>, of tx] c
        have b5: "boundedCreates s5" by simp
        show ?thesis
          using b tr None p Inr g I4 c bounded_db_Rollback [OF b5, of tx]
            bounded_db_Commit [OF b5, of tx] bounded_db_Commit [OF b4, of tx]
          by (cases r5) (simp_all add: savePolicy_def)
      qed
    qed
  qed
qed

subsection \<open>The order of the rows\<close>

lemma db_Create_Tx_accepted:
  "txs s n = Some ws \<Longrightarrow> \<not> rejects s (length (trace s)) \<Longrightarrow> ls \<noteq> [] \<Longrightarrow>
     db_Create (Tx n) ls s =
       (None, s\<lparr>trace := trace s @ [SCreate (PTx n) ls],
                 txs := (txs s)(n \<mapsto> ws @ [WInsert (number_rows (next_id s) ls)]),
                 next_id := next_id s + length ls\<rparr>)"
  by (simp add: db_Create_def db_write_def issue_def)

lemma savePolicyRules_rows:
  "txs s n = Some ws \<Longrightarrow> \<forall>k. \<not> rejects s k \<Longrightarrow>
     (\<exists>lines'. fst (savePolicyRules (Tx n) ptype rules lines s) = Inr lines' \<and>
        createdRows (trace (snd (savePolicyRules (Tx n) ptype rules lines s))) @ lines' =
          createdRows (trace s) @ lines @ map (savePolicyLine ptype) rules) \<and>
     txs (snd (savePolicyRules (Tx n) ptype rules lines s)) n \<noteq> None \<and>
     rejects (snd (savePolicyRules (Tx n) ptype rules lines s)) = rejects s"
proof (induction rules arbitrary: lines s ws)
  case Nil
  then show ?case by simp
next
  case (Cons rule rules)
  let ?ls = "lines @ [savePolicyLine ptype rule]"
  show ?case
  proof (cases "length ?ls > flushEvery")
    case True
    let ?s1 = "s\<lparr>trace := trace s @ [SCreate (PTx n) ?ls],
                 txs := (txs s)(n \<mapsto> ws @ [WInsert (number_rows (next_id s) ?ls)]),
                 next_id := next_id s + length ?ls\<rparr>"
    have c: "db_Create (Tx n) ?ls s = (None, ?s1)"
      using Cons.prems by (intro db_Create_Tx_accepted) simp_all
    have step: "savePolicyRules (Tx n) ptype (rule # rules) lines s =
                  savePolicyRules (Tx n) ptype rules [] ?s1"
      using True c by (simp add: Let_def)
    have o: "txs ?s1 n = Some (ws @ [WInsert (number_rows (next_id s) ?ls)])" by simp
    have r: "\<forall>k. \<not> rejects ?s1 k" using Cons.prems by simp
    from Cons.IH [OF o r, of "[]"] show ?thesis
      unfolding step by (simp add: createdRows_append)
  next
    case False
    then have step: "savePolicyRules (Tx n) ptype (rule # rules) lines s =
                       savePolicyRules (Tx n) ptype rules ?ls s"
      by (simp add: Let_def)
    from Cons.IH [OF Cons.prems, of ?ls] show ?thesis unfolding step by simp
  qed
qed

lemma savePolicySection_rows:
  "txs s n = Some ws \<Longrightarrow> \<forall>k. \<not> rejects s k \<Longrightarrow>
     (\<exists>lines'. fst (savePolicySection (Tx n) am lines s) = Inr lines' \<and>
        createdRows (trace (snd (savePolicySection (Tx n) am lines s))) @ lines' =
          createdRows (trace s) @ lines @ sectionLines am) \<and>
     txs (snd (savePolicySection (Tx n) am lines s)) n \<noteq> None \<and>
     rejects (snd (savePolicySection (Tx n) am lines s)) = rejects s"
proof (induction am arbitrary: lines s ws)
  case Nil
  then show ?case by (simp add: sectionLines_def)
next
  case (Cons entry entries)
  obtain r s' where c: "savePolicyRules (Tx n) (fst entry) (Policy (snd entry)) lines s = (r, s')"
    by (cases "savePolicyRules (Tx n) (fst entry) (Policy (snd entry)) lines s")
  from savePolicyRules_rows [OF Cons.prems, of "fst entry" "Policy (snd entry)" lines] c
  obtain lines' ws' where r: "r = Inr lines'"
    and cr: "createdRows (trace s') @ lines' =
               createdRows (trace s) @ lines @ map (savePolicyLine (fst entry)) (Policy (snd entry))"
    and o: "txs s' n = Some ws'" and rj: "rejects s' = rejects s"
    by auto
  have step: "savePolicySection (Tx n) (entry # entries) lines s =
                savePolicySection (Tx n) entries lines' s'"
    using c r by simp
  have nr: "\<forall>k. \<not> rejects s' k" using rj Cons.prems by simp
  from Cons.IH [OF o nr, of lines'] cr rj show ?case
    unfolding step by (auto simp: sectionLines_def)
qed

lemma savePolicy_family_order:
  assumes "\<forall>k. \<not> rejects s k"
  shows "fst (savePolicy a Conn model s) = None \<and>
         createdRows (trace (snd (savePolicy a Conn model s))) =
           createdRows (trace s) @ sectionLines (modelSection model ''p'') @
           sectionLines (modelSection model ''g'')"
proof -
  let ?n = "next_tx s"
  let ?s1 = "s\<lparr>trace := trace s @ [SBegin ?n], txs := (txs s)(?n \<mapsto> []), next_tx := Suc ?n\<rparr>"
  have b: "db_Begin Conn s = (Tx ?n, ?s1)"
    using assms by (simp add: db_Begin_def issue_def)
  obtain q where t: "truncateTable a Conn ?s1 = (None, ?s1\<lparr>trace := trace ?s1 @ [SExec PConn q], rows := []\<rparr>)"
    using assms by (simp add: truncateTable_def db_Exec_def db_write_def issue_def Let_def)
  let ?s2 = "?s1\<lparr>trace := trace ?s1 @ [SExec PConn q], rows := []\<rparr>"
  have o2: "txs ?s2 ?n = Some []" by simp
  have r2: "\<forall>k. \<not> rejects ?s2 k" using assms by simp
  obtain r3 s3 where p: "savePolicySection (Tx ?n) (modelSection model ''p'') [] ?s2 = (r3, s3)"
    by (cases "savePolicySection (Tx ?n) (modelSection model ''p'') [] ?s2")
  from savePolicySection_rows [OF o2 r2, of "modelSection model ''p''" "[]"] p
  obtain lines3 ws3 where r3: "r3 = Inr lines3"
    and c3: "createdRows (trace s3) @ lines3 = createdRows (trace s) @ sectionLines (modelSection model ''p'')"
    and o3: "txs s3 ?n = Some ws3" and j3: "rejects s3 = rejects s"
    by (auto simp: createdRows_append)
  have n3: "\<forall>k. \<not> rejects s3 k" using j3 assms by simp
  obtain r4 s4 where g: "savePolicySection (Tx ?n) (modelSection model ''g'') lines3 s3 = (r4, s4)"
    by (cases "savePolicySection (Tx ?n) (modelSection model ''g'') lines3 s3")
  from savePolicySection_rows [OF o3 n3, of "modelSection model ''g''" lines3] g
  obtain lines4 ws4 where r4: "r4 = Inr lines4"
    and c4: "createdRows (trace s4) @ lines4 = createdRows (trace s3) @ lines3 @ sectionLines (modelSection model ''g'')"
    and o4: "txs s4 ?n = Some ws4" and j4': "rejects s4 = rejects s3"
    by auto
  have j4: "rejects s4 = rejects s" using j4' j3 by simp
  have n4: "\<not> rejects s4 (length (trace s4))" using j4 assms by simp
  have all: "createdRows (trace s4) @ lines4 =
               createdRows (trace s) @ sectionLines (modelSection model ''p'') @
               sectionLines (modelSection model ''g'')"
    using c3 c4 by (metis append.assoc)
  show ?thesis
  proof (cases "lines4 = []")
    case True
    have "savePolicy a Conn model s = db_Commit (Tx ?n) s4"
      using b t p r3 g r4 True by (simp add: savePolicy_def)
    then show ?thesis
      using all True o4 n4 j4 assms
      by (simp add: db_Commit_def commit_pool_def issue_def createdRows_append)
  next
    case False
    let ?s5 = "s4\<lparr>trace := trace s4 @ [SCreate (PTx ?n) lines4],
                 txs := (txs s4)(?n \<mapsto> ws4 @ [WInsert (number_rows (next_id s4) lines4)]),
                 next_id := next_id s4 + length lines4\<rparr>"
    have c: "db_Create (Tx ?n) lines4 s4 = (None, ?s5)"
      by (rule db_Create_Tx_accepted [OF o4 n4 False])
    have "savePolicy a Conn model s = db_Commit (Tx ?n) ?s5"
      using b t p r3 g r4 False c by (simp add: savePolicy_def)
    then show ?thesis
      using all j4 assms
      by (simp add: db_Commit_def commit_pool_def issue_def createdRows_append)
  qed
qed

subsection \<open>A failure after the delete-all\<close>

lemma db_Begin_Conn_cases:
  "db_Begin Conn s = (tx, s1) \<Longrightarrow>
     ((\<exists>n. tx = Tx n) \<or> (\<exists>e. tx = NilTx e)) \<and> rows s1 = rows s \<and>
     trace s1 = trace s @ [SBegin (next_tx s)] \<and> rejects s1 = rejects s"
  by (auto simp: db_Begin_def issue_def split: if_splits)

lemma rows_db_Create:
  "(\<exists>n. tx = Tx n) \<or> (\<exists>e. tx = NilTx e) \<Longrightarrow> rows (snd (db_Create tx ls s)) = rows s"
  by (auto simp: db_Create_def db_write_def issue_def split: option.splits)

lemma rows_db_Rollback: "rows (db_Rollback tx s) = rows s"
  by (auto simp: db_Rollback_def rollback_pool_def split: handle.splits option.splits)

lemma rows_db_Commit_error:
  "(\<exists>n. tx = Tx n) \<or> (\<exists>e. tx = NilTx e) \<Longrightarrow> fst (db_Commit tx s) \<noteq> None \<Longrightarrow>
     rows (snd (db_Commit tx s)) = rows s"
  by (auto simp: db_Commit_def commit_pool_def issue_def split: option.splits if_splits)

lemma rows_savePolicyRules:
  "(\<exists>n. tx = Tx n) \<or> (\<exists>e. tx = NilTx e) \<Longrightarrow>
     rows (snd (savePolicyRules tx ptype rules lines s)) = rows s"
proof (induction rules arbitrary: lines s)
  case Nil
  then show ?case by simp
next
  case (Cons rule rules)
  let ?ls = "lines @ [savePolicyLine ptype rule]"
  obtain r s' where c: "db_Create tx ?ls s = (r, s')" by (cases "db_Create tx ?ls s")
  with rows_db_Create [OF Cons.prems, of ?ls s] have rs: "rows s' = rows s" by simp
  show ?case
  proof (cases "length ?ls > flushEvery")
    case True
    show ?thesis
    proof (cases r)
      case None
      have "savePolicyRules tx ptype (rule # rules) lines s = savePolicyRules tx ptype rules [] s'"
        using True None c by (simp add: Let_def)
      then show ?thesis using Cons.IH [OF Cons.prems, of "[]" s'] rs by simp
    next
      case (Some err)
      have "savePolicyRules tx ptype (rule # rules) lines s = (Inl err, db_Rollback tx s')"
        using True Some c by (simp add: Let_def)
      then show ?thesis using rs by (simp add: rows_db_Rollback)
    qed
  next
    case False
    then have "savePolicyRules tx ptype (rule # rules) lines s = savePolicyRules tx ptype rules ?ls s"
      by (simp add: Let_def)
    then show ?thesis using Cons.IH [OF Cons.prems, of ?ls s] by simp
  qed
qed

lemma rows_savePolicySection:
  "(\<exists>n. tx = Tx n) \<or> (\<exists>e. tx = NilTx e) \<Longrightarrow>
     rows (snd (savePolicySection tx am lines s)) = rows s"
proof (induction am arbitrary: lines s)
  case Nil
  then show ?case by simp
next
  case (Cons entry entries)
  obtain r s' where c: "savePolicyRules tx (fst entry) (Policy (snd entry)) lines s = (r, s')"
    by (cases "savePolicyRules tx (fst entry) (Policy (snd entry)) lines s")
  with rows_savePolicyRules [OF Cons.prems, of "fst entry" "Policy (snd entry)" lines s]
  have rs: "rows s' = rows s" by simp
  show ?case
  proof (cases r)
    case (Inl err)
    then show ?thesis using c rs by simp
  next
    case (Inr lines')
    then have "savePolicySection tx (entry # entries) lines s = savePolicySection tx entries lines' s'"
      using c by simp
    then show ?thesis using Cons.IH [OF Cons.prems, of lines' s'] rs by simp
  qed
qed

lemma savePolicy_failure_after_truncate:
  assumes "\<not> rejects s (Suc (length (trace s)))"
    and "fst (savePolicy a Conn model s) \<noteq> None"
  shows "rows (snd (savePolicy a Conn model s)) = []"
proof -
  obtain tx s1 where b: "db_Begin Conn s = (tx, s1)" by (cases "db_Begin Conn s")
  from db_Begin_Conn_cases [OF b]
  have tx: "(\<exists>n. tx = Tx n) \<or> (\<exists>e. tx = NilTx e)"
    and t1: "trace s1 = trace s @ [SBegin (next_tx s)]" and j1: "rejects s1 = rejects s"
    by simp_all
  obtain q where t: "truncateTable a Conn s1 = (None, s1\<lparr>trace := trace s1 @ [SExec PConn q], rows := []\<rparr>)"
    using assms(1) t1 j1 by (simp add: truncateTable_def db_Exec_def db_write_def issue_def Let_def)
  let ?s2 = "s1\<lparr>trace := trace s1 @ [SExec PConn q], rows := []\<rparr>"
  obtain r3 s3 where p: "savePolicySection tx (modelSection model ''p'') [] ?s2 = (r3, s3)"
    by (cases "savePolicySection tx (modelSection model ''p'') [] ?s2")
  with rows_savePolicySection [OF tx, of "modelSection model ''p''" "[]" ?s2]
  have e3: "rows s3 = []" by simp
  show ?thesis
  proof (cases r3)
    case (Inl err)
    then show ?thesis using b t p e3 by (simp add: savePolicy_def)
  next
    case (Inr lines3)
    obtain r4 s4 where g: "savePolicySection tx (modelSection model ''g'') lines3 s3 = (r4, s4)"
      by (cases "savePolicySection tx (modelSection model ''g'') lines3 s3")
    with rows_savePolicySection [OF tx, of "modelSection model ''g''" lines3 s3] e3
    have e4: "rows s4 = []" by simp
    show ?thesis
    proof (cases r4)
      case (Inl err)
      then show ?thesis using b t p Inr g e4 by (simp add: savePolicy_def)
    next
      case I4: (Inr lines4)
      obtain r5 s5 where c: "db_Create tx lines4 s4 = (r5, s5)" by (cases "db_Create tx lines4 s4")
      with rows_db_Create [OF tx, of lines4 s4] e4 have e5: "rows s5 = []" by simp
      show ?thesis
      proof (cases "length lines4 > 0")
        case True
        show ?thesis
        proof (cases r5)
          case None
          have eq: "savePolicy a Conn model s = db_Commit tx s5"
            using b t p Inr g I4 c True None by (simp add: savePolicy_def)
          with assms(2) have "fst (db_Commit tx s5) \<noteq> None" by simp
          from rows_db_Commit_error [OF tx this] e5 eq show ?thesis by simp
        next
          case (Some err)
          have "savePolicy a Conn model s = (Some err, db_Rollback tx s5)"
            using b t p Inr g I4 c True Some by (simp add: savePolicy_def)
          then show ?thesis using e5 by (simp add: rows_db_Rollback)
        qed
      next
        case False
        have eq: "savePolicy a Conn model s = db_Commit tx s4"
          using b t p Inr g I4 False by (simp add: savePolicy_def)
        with assms(2) have "fst (db_Commit tx s4) \<noteq> None" by simp
        from rows_db_Commit_error [OF tx this] e4 eq show ?thesis by simp
      qed
    qed
  qed
qed

subsection \<open>The two claims on saving\<close>

text \<open>
  Claim C8. When no statement is rejected, the rows of the \<open>p\<close> section are sent
  before those of the \<open>g\<close> section (\<open>savePolicy_family_order\<close>). The buffer is
  flushed once it is longer than \<open>flushEvery\<close>, that is at 1001 rows, and no bulk
  insert of a save is larger than that (\<open>savePolicy_bounded\<close>). The bound of 1000
  rows does not hold: saving a model with 1001 rules of type \<open>p\<close> sends them all in
  one bulk insert.
\<close>

theorem C8_bulk_insert_of_1001_rows:
  "fst (savePolicy sampleAdapter Conn bigModel (storeOf [] (\<lambda>n. False))) = None \<and>
   trace (snd (savePolicy sampleAdapter Conn bigModel (storeOf [] (\<lambda>n. False)))) =
     [SBegin 0, SExec PConn (DeleteFrom ''casbin_rule''),
      SCreate (PTx 0) (map (savePolicyLine ''p'') sampleRules), SCommit 0] \<and>
   createSizes (trace (snd (savePolicy sampleAdapter Conn bigModel (storeOf [] (\<lambda>n. False))))) =
     [1001]"
proof -
  have f: "length sampleRules = Suc flushEvery"
    by (simp add: length_sampleRules flushEvery_def)
  have r: "savePolicy sampleAdapter Conn bigModel (storeOf [] (\<lambda>n. False)) =
      (None, \<lparr>rows = number_rows 1 (map (savePolicyLine ''p'') sampleRules),
              txs = Map.empty, next_tx = 1, next_id = 1 + length sampleRules,
              trace = [SBegin 0, SExec PConn (DeleteFrom ''casbin_rule''),
                       SCreate (PTx 0) (map (savePolicyLine ''p'') sampleRules), SCommit 0],
              rejects = (\<lambda>n. False)\<rparr>)"
    by (simp add: savePolicy_def storeOf_def db_Begin_def issue_def truncateTable_def
        sampleAdapter_def getFullTableName_def db_Exec_def db_write_def modelSection_def
        bigModel_def savePolicyRules_flush [OF f] db_Create_def sampleRules_nonempty
        db_Commit_def commit_pool_def)
  show ?thesis by (simp add: r length_sampleRules)
qed

text \<open>
  Claim C1. \<open>savePolicy\<close> begins a transaction but sends the delete-all through the
  handle it was given, not through the transaction. On the ambient connection, once the
  delete-all is accepted, every failure of the save leaves the table empty
  (\<open>savePolicy_failure_after_truncate\<close>). On a table holding one row, with the bulk
  insert rejected, the transaction is rolled back and the error returned, yet the
  delete-all has taken effect: the table is empty, not in its state before the save.
\<close>

theorem C1_truncate_outside_transaction:
  "fst (savePolicy sampleAdapter Conn aliceModel (storeOf [bobRow] (\<lambda>n. n = 2))) =
     Some (StoreError 2) \<and>
   trace (snd (savePolicy sampleAdapter Conn aliceModel (storeOf [bobRow] (\<lambda>n. n = 2)))) =
     [SBegin 0, SExec PConn (DeleteFrom ''casbin_rule''),
      SCreate (PTx 0) [savePolicyLine ''p'' [''alice'', ''data1'', ''read'']], SRollback 0] \<and>
   rows (storeOf [bobRow] (\<lambda>n. n = 2)) = [bobRow] \<and>
   rows (snd (savePolicy sampleAdapter Conn aliceModel (storeOf [bobRow] (\<lambda>n. n = 2)))) = []"
  by (simp add: savePolicy_def storeOf_def db_Begin_def issue_def truncateTable_def
      sampleAdapter_def getFullTableName_def db_Exec_def db_write_def modelSection_def
      aliceModel_def flushEvery_def db_Create_def db_Rollback_def rollback_pool_def Let_def)

section \<open>The transaction wrapper\<close>

lemma db_Rollback_Tx:
  "txs (db_Rollback (Tx n) s) n = None \<and> rows (db_Rollback (Tx n) s) = rows s"
  by (simp add: db_Rollback_def rollback_pool_def split: option.splits)

lemma rollbackAndReload_outcome:
  "returned (fst (rollbackAndReload ret tx LoadPolicy s)) = ret \<and>
   reloads (fst (rollbackAndReload ret tx LoadPolicy s)) = 1 \<and>
   logged (fst (rollbackAndReload ret tx LoadPolicy s)) =
     (case fst (LoadPolicy (db_Rollback tx s)) of None \<Rightarrow> [] | Some e \<Rightarrow> [e]) \<and>
   snd (rollbackAndReload ret tx LoadPolicy s) = snd (LoadPolicy (db_Rollback tx s))"
  by (simp add: rollbackAndReload_def split: prod.splits option.splits)

text \<open>
  Claim C4. Once \<open>Begin\<close> has given a transaction and the callback returns: the caller
  receives the callback's error, or else the commit's, or else \<open>nil\<close>. When that is an
  error, the transaction is rolled back, the reload hook runs once on the store as the
  rollback left it, and a failure of the reload goes to the log only. The value the
  caller receives is the same whatever the reload hook does.
\<close>

theorem C4_Transaction_returns_original_error:
  assumes "db_Begin (db a) s = (tx, s1)"
    and "handleError tx = None"
    and "fc \<lparr>tablePrefix = [], tableName = tableName a, dialect = dialect a, db = tx,
              isFiltered = False\<rparr> s1 = (Returns r, s2)"
    and "db_Commit tx s2 = (c, s3)"
  shows "returned (fst (Transaction a LoadPolicy fc s)) =
           Returns (case r of Some e \<Rightarrow> Some e | None \<Rightarrow> c) \<and>
         returned (fst (Transaction a LoadPolicy' fc s)) =
           returned (fst (Transaction a LoadPolicy fc s)) \<and>
         (r \<noteq> None \<or> c \<noteq> None \<longrightarrow>
            reloads (fst (Transaction a LoadPolicy fc s)) = 1 \<and>
            snd (Transaction a LoadPolicy fc s) =
              snd (LoadPolicy (db_Rollback tx (if r = None then s3 else s2))) \<and>
            logged (fst (Transaction a LoadPolicy fc s)) =
              (case fst (LoadPolicy (db_Rollback tx (if r = None then s3 else s2))) of
                 None \<Rightarrow> [] | Some e \<Rightarrow> [e])) \<and>
         (r = None \<and> c = None \<longrightarrow>
            reloads (fst (Transaction a LoadPolicy fc s)) = 0 \<and>
            logged (fst (Transaction a LoadPolicy fc s)) = [] \<and>
            snd (Transaction a LoadPolicy fc s) = s3)"
proof (cases r)
  case (Some e)
  have "\<And>L. Transaction a L fc s = rollbackAndReload (Returns (Some e)) tx L s2"
    using assms Some by (simp add: Transaction_def)
  then show ?thesis using Some by (simp add: rollbackAndReload_outcome)
next
  case None
  show ?thesis
  proof (cases c)
    case (Some e)
    have "\<And>L. Transaction a L fc s = rollbackAndReload (Returns (Some e)) tx L s3"
      using assms None Some by (simp add: Transaction_def)
    then show ?thesis using None Some by (simp add: rollbackAndReload_outcome)
  next
    case N2: None
    have "\<And>L. Transaction a L fc s = (\<lparr>returned = Returns None, reloads = 0, logged = []\<rparr>, s3)"
      using assms None N2 by (simp add: Transaction_def)
    then show ?thesis using None N2 by simp
  qed
qed

lemma sample_begin:
  "db_Begin (db sampleAdapter) (storeOf [aliceRow] (\<lambda>n. False)) =
     (Tx 0, (storeOf [aliceRow] (\<lambda>n. False))\<lparr>trace := [SBegin 0], txs := [0 \<mapsto> []], next_tx := 1\<rparr>)"
  by (simp add: db_Begin_def issue_def sampleAdapter_def storeOf_def)

theorem C4_Transaction_witness:
  "returned (fst (Transaction sampleAdapter failingReload addThenFail (storeOf [aliceRow] (\<lambda>n. False)))) =
     Returns (Some (EngineError ''callback failed'')) \<and>
   reloads (fst (Transaction sampleAdapter failingReload addThenFail (storeOf [aliceRow] (\<lambda>n. False)))) = 1 \<and>
   logged (fst (Transaction sampleAdapter failingReload addThenFail (storeOf [aliceRow] (\<lambda>n. False)))) =
     [EngineError ''reload failed''] \<and>
   rows (snd (Transaction sampleAdapter failingReload addThenFail (storeOf [aliceRow] (\<lambda>n. False)))) =
     [aliceRow]"
proof -
  let ?s1 = "(storeOf [aliceRow] (\<lambda>n. False))\<lparr>trace := [SBegin 0], txs := [0 \<mapsto> []], next_tx := 1\<rparr>"
  let ?b = "\<lparr>tablePrefix = [], tableName = tableName sampleAdapter, dialect = dialect sampleAdapter,
             db = Tx 0, isFiltered = False\<rparr>"
  have h: "handleError (Tx 0) = None" by (simp add: handleError_def)
  have f: "addThenFail ?b ?s1 = (Returns (Some (EngineError ''callback failed'')), snd (addThenFail ?b ?s1))"
    by (simp add: addThenFail_def)
  have c: "db_Commit (Tx 0) (snd (addThenFail ?b ?s1)) =
             (fst (db_Commit (Tx 0) (snd (addThenFail ?b ?s1))), snd (db_Commit (Tx 0) (snd (addThenFail ?b ?s1))))"
    by simp
  have r: "rows (snd (addThenFail ?b ?s1)) = [aliceRow]"
    by (simp add: addThenFail_def addPolicy_def db_Create_def db_write_def issue_def storeOf_def)
  let ?T = "Transaction sampleAdapter failingReload addThenFail (storeOf [aliceRow] (\<lambda>n. False))"
  note t = C4_Transaction_returns_original_error
    [where a = sampleAdapter and fc = addThenFail and LoadPolicy = failingReload
       and LoadPolicy' = failingReload, OF sample_begin h f c]
  from t have ret: "returned (fst ?T) = Returns (Some (EngineError ''callback failed''))"
    by simp
  from t have rel: "reloads (fst ?T) = 1" by simp
  from t have lg: "logged (fst ?T) = [EngineError ''reload failed'']"
    by (simp add: failingReload_def)
  from t have "snd ?T = db_Rollback (Tx 0) (snd (addThenFail ?b ?s1))"
    by (simp add: failingReload_def)
  then have "rows (snd ?T) = rows (snd (addThenFail ?b ?s1))"
    by (simp only: db_Rollback_Tx)
  with r have rw: "rows (snd ?T) = [aliceRow]" by (simp only:)
  from ret rel lg rw show ?thesis by (intro conjI)
qed

section \<open>Context-scoped operations without a handle\<close>

lemma executeWithContext_withoutDB:
  "executeWithContext ctx ctx_first (\<lambda>s. (Returns (Some CtxWithoutDBError), s)) s =
     (Returns (withoutDB ctx ctx_first), s)"
  by (simp add: executeWithContext_def withoutDB_def split: option.splits)

text \<open>
  Claim C9, as stated, at a cancelled context that holds no handle: when the \<open>select\<close>
  takes the context's end, \<open>LoadPolicyCtx\<close> returns the context's error, not
  \<open>CtxWithoutDBError\<close>.
\<close>

theorem C9_cancelled_context_counterexample:
  "getDBByCtx sampleContextAdapter cancelledContext = None \<and>
   fst (LoadPolicyCtx sampleEngine sampleContextAdapter cancelledContext True
          (aliceModel, storeOf [aliceRow] (\<lambda>n. False))) =
     Returns (Some (ContextError ''context canceled'')) \<and>
   Returns (Some (ContextError ''context canceled'')) \<noteq> Returns (Some CtxWithoutDBError)"
  by (simp add: getDBByCtx_def cancelledContext_def sampleContextAdapter_def LoadPolicyCtx_def
      executeWithContext_def)

text \<open>
  Claim C9, amended. When the context holds no handle under the adapter's key, no
  context-scoped operation touches the store, the model or the adapter.
  \<open>TransactionCtx\<close> returns \<open>CtxWithoutDBError\<close>. Every other operation is raced
  against the context: it returns \<open>CtxWithoutDBError\<close> unless the context has ended
  and its end is taken first, in which case it returns the context's error.
\<close>

theorem C9_missing_handle:
  assumes "getDBByCtx ca ctx = None"
  shows "LoadPolicyCtx E ca ctx ctx_first (model, s) = (Returns (withoutDB ctx ctx_first), model, s) \<and>
         LoadFilteredPolicyCtx E ctx ctx_first filter_v (ca, model, s) =
           (Returns (withoutDB ctx ctx_first), ca, model, s) \<and>
         SavePolicyCtx ca ctx ctx_first model s = (Returns (withoutDB ctx ctx_first), s) \<and>
         AddPolicyCtx ca ctx ctx_first sec ptype rule s = (Returns (withoutDB ctx ctx_first), s) \<and>
         AddPoliciesCtx ca ctx ctx_first sec ptype rules s = (Returns (withoutDB ctx ctx_first), s) \<and>
         RemovePolicyCtx ca ctx ctx_first sec ptype rule s = (Returns (withoutDB ctx ctx_first), s) \<and>
         RemovePoliciesCtx ca ctx ctx_first sec ptype rules s = (Returns (withoutDB ctx ctx_first), s) \<and>
         RemoveFilteredPolicyCtx ca ctx ctx_first sec ptype fieldIndex fieldValues s =
           (Returns (withoutDB ctx ctx_first), s) \<and>
         UpdatePolicyCtx ca ctx ctx_first sec ptype oldRule newRule s =
           (Returns (withoutDB ctx ctx_first), s) \<and>
         UpdatePoliciesCtx ca ctx ctx_first sec ptype oldRules newRules s =
           (Returns (withoutDB ctx ctx_first), s) \<and>
         UpdateFilteredPoliciesCtx ca ctx ctx_first sec ptype newRules fieldIndex fieldValues s =
           (Returns ([], withoutDB ctx ctx_first), s) \<and>
         TransactionCtx ca ctx LoadPolicySyncWatcher fc s =
           (\<lparr>returned = Returns (Some CtxWithoutDBError), reloads = 0, logged = []\<rparr>, s)"
proof (intro conjI)
  show "LoadPolicyCtx E ca ctx ctx_first (model, s) = (Returns (withoutDB ctx ctx_first), model, s)"
    by (simp add: LoadPolicyCtx_def assms executeWithContext_def withoutDB_def split: option.splits)
  show "LoadFilteredPolicyCtx E ctx ctx_first filter_v (ca, model, s) =
           (Returns (withoutDB ctx ctx_first), ca, model, s)"
    by (simp add: LoadFilteredPolicyCtx_def assms executeWithContext_def withoutDB_def
        split: option.splits)
  show "SavePolicyCtx ca ctx ctx_first model s = (Returns (withoutDB ctx ctx_first), s)"
    by (simp add: SavePolicyCtx_def assms executeWithContext_withoutDB)
  show "AddPolicyCtx ca ctx ctx_first sec ptype rule s = (Returns (withoutDB ctx ctx_first), s)"
    by (simp add: AddPolicyCtx_def assms executeWithContext_withoutDB)
  show "AddPoliciesCtx ca ctx ctx_first sec ptype rules s = (Returns (withoutDB ctx ctx_first), s)"
    by (simp add: AddPoliciesCtx_def assms executeWithContext_withoutDB)
  show "RemovePolicyCtx ca ctx ctx_first sec ptype rule s = (Returns (withoutDB ctx ctx_first), s)"
    by (simp add: RemovePolicyCtx_def assms executeWithContext_withoutDB)
  show "RemovePoliciesCtx ca ctx ctx_first sec ptype rules s = (Returns (withoutDB ctx ctx_first), s)"
    by (simp add: RemovePoliciesCtx_def assms executeWithContext_withoutDB)
  show "RemoveFilteredPolicyCtx ca ctx ctx_first sec ptype fieldIndex fieldValues s =
           (Returns (withoutDB ctx ctx_first), s)"
    by (simp add: RemoveFilteredPolicyCtx_def assms executeWithContext_withoutDB)
  show "UpdatePolicyCtx ca ctx ctx_first sec ptype oldRule newRule s =
           (Returns (withoutDB ctx ctx_first), s)"
    by (simp add: UpdatePolicyCtx_def assms executeWithContext_withoutDB)
  show "UpdatePoliciesCtx ca ctx ctx_first sec ptype oldRules newRules s =
           (Returns (withoutDB ctx ctx_first), s)"
    by (simp add: UpdatePoliciesCtx_def assms executeWithContext_withoutDB)
  show "UpdateFilteredPoliciesCtx ca ctx ctx_first sec ptype newRules fieldIndex fieldValues s =
           (Returns ([], withoutDB ctx ctx_first), s)"
    by (simp add: UpdateFilteredPoliciesCtx_def assms executeWithContextEx_def withoutDB_def
        split: option.splits)
  show "TransactionCtx ca ctx LoadPolicySyncWatcher fc s =
           (\<lparr>returned = Returns (Some CtxWithoutDBError), reloads = 0, logged = []\<rparr>, s)"
    by (simp add: TransactionCtx_def assms)
qed

theorem C9_missing_handle_witness:
  "getDBByCtx sampleContextAdapter emptyContext = None \<and>
   SavePolicyCtx sampleContextAdapter emptyContext True aliceModel (storeOf [bobRow] (\<lambda>n. False)) =
     (Returns (Some CtxWithoutDBError), storeOf [bobRow] (\<lambda>n. False)) \<and>
   RemoveFilteredPolicyCtx sampleContextAdapter emptyContext True ''p'' ''p'' (- 1) []
       (storeOf [bobRow] (\<lambda>n. False)) =
     (Returns (Some CtxWithoutDBError), storeOf [bobRow] (\<lambda>n. False))"
proof -
  have g: "getDBByCtx sampleContextAdapter emptyContext = None"
    by (simp add: getDBByCtx_def emptyContext_def)
  have w: "withoutDB emptyContext True = Some CtxWithoutDBError"
    by (simp add: withoutDB_def emptyContext_def)
  from C9_missing_handle [OF g, where ctx_first = True and s = "storeOf [bobRow] (\<lambda>n. False)"
      and model = aliceModel and sec = "''p''" and ptype = "''p''" and fieldIndex = "- 1"
      and fieldValues = "[]"]
  show ?thesis by (simp add: g w)
qed

end
